theory Spec2Isabelle
  imports Main
begin

section \<open>The hitch routing facade (hitch.go)\<close>

text \<open>
  A shallow embedding of \<^verbatim>\<open>hitch.go\<close>: a facade over an external path router
  that keeps a base path and an ordered list of middleware.  Go's heap is made explicit:
  \<^verbatim>\<open>*Hitch\<close> and \<^verbatim>\<open>*httprouter.Router\<close> are addresses into a store, and
  a \<^verbatim>\<open>[]Middleware\<close> slice is a view of a backing array held in the store, so that
  aliasing between a facade and the facades derived from it can be stated.
\<close>

subsection \<open>Strings\<close>

text \<open>
  Go strings are byte sequences, as \<^typ>\<open>string\<close> is.  The two functions of package
  \<^verbatim>\<open>strings\<close> that \<^verbatim>\<open>path\<close> calls are written out as the standard library
  defines them.
\<close>

definition HasPrefix :: "string \<Rightarrow> string \<Rightarrow> bool" where
  "HasPrefix s prefix \<longleftrightarrow> length prefix \<le> length s \<and> take (length prefix) s = prefix"

definition HasSuffix :: "string \<Rightarrow> string \<Rightarrow> bool" where
  "HasSuffix s suffix \<longleftrightarrow>
     length suffix \<le> length s \<and> drop (length s - length suffix) s = suffix"

definition TrimSuffix :: "string \<Rightarrow> string \<Rightarrow> string" where
  "TrimSuffix s suffix =
     (if HasSuffix s suffix then take (length s - length suffix) s else s)"

subsection \<open>Handlers and middleware\<close>

text \<open>
  An \<^verbatim>\<open>http.Handler\<close> is run as \<^verbatim>\<open>ServeHTTP(w, req)\<close>.  Its effects (on the response
  writer, on anything else) are a transformation of a world state \<^typ>\<open>'s\<close>; \<^typ>\<open>'w\<close> is
  the response writer handed over and \<^typ>\<open>'r\<close> the request pointer.  A handler either
  returns or panics, and the world it leaves behind is kept in both cases.
\<close>

datatype 's outcome = Returns 's | Panics 's

type_synonym ('w, 'r, 's) Handler = "'w \<Rightarrow> 'r \<Rightarrow> 's \<Rightarrow> 's outcome"

text \<open>\<^verbatim>\<open>type Middleware func(next http.Handler) http.Handler\<close>.  A value of a Go func
  type may be \<^verbatim>\<open>nil\<close>, which is \<^term>\<open>None\<close> where a middleware is stored.\<close>

type_synonym ('w, 'r, 's) Middleware = "('w, 'r, 's) Handler \<Rightarrow> ('w, 'r, 's) Handler"

datatype error = NilPointer | NilFunc | RouterPanic

subsection \<open>The store\<close>

text \<open>
  Modelled from the spec: \<^verbatim>\<open>httprouter.Router\<close> is an external dependency whose code is
  not part of the repository.  The spec's collaborator contract gives it a route table
  keyed by an exact (method, path) pair and the flag that chooses between "not found" and
  "method not allowed"; the route table is kept in registration order.
\<close>

record ('w, 'r, 's) httprouter =
  HandleMethodNotAllowed :: bool
  routes :: "(string \<times> string \<times> ('w, 'r, 's) Handler) list"

text \<open>A slice is \<^verbatim>\<open>nil\<close> or a view of the first \<open>n\<close> elements of the backing array at
  an address; its capacity is the length of that array.\<close>

datatype slice = NilSlice | Slice nat nat

record Hitch =
  router :: nat
  basePath :: string
  middlewares :: slice

record ('w, 'r, 's) store =
  routers :: "('w, 'r, 's) httprouter list"
  arrays :: "('w, 'r, 's) Middleware option list list"
  hitches :: "Hitch list"

text \<open>Following a pointer: an address outside the store stands for \<^verbatim>\<open>nil\<close>, and
  dereferencing it panics.\<close>

definition deref :: "'a list \<Rightarrow> nat \<Rightarrow> error + 'a" where
  "deref objs a = (if a < length objs then Inr (objs ! a) else Inl NilPointer)"

subsection \<open>Path composition\<close>

text \<open>\<^verbatim>\<open>func (h *Hitch) path(p string) string\<close>, on the facade the receiver points to.\<close>

definition path :: "Hitch \<Rightarrow> string \<Rightarrow> string" where
  "path h p =
     (let base = TrimSuffix (basePath h) ''/'';
          p' = (if p \<noteq> '''' \<and> \<not> HasPrefix p ''/'' then ''/'' @ p else p)
      in base @ p')"

subsection \<open>Slices\<close>

text \<open>
  \<^verbatim>\<open>len\<close>, \<^verbatim>\<open>cap\<close> and the elements a slice shows.  A slice held by a Go program always
  points into a live array (\<open>wf_store\<close> below says so for the slices of the facades).
\<close>

definition slice_len :: "slice \<Rightarrow> nat" where
  "slice_len s = (case s of NilSlice \<Rightarrow> 0 | Slice a n \<Rightarrow> n)"

definition slice_cap :: "('w, 'r, 's) store \<Rightarrow> slice \<Rightarrow> nat" where
  "slice_cap st s = (case s of NilSlice \<Rightarrow> 0 | Slice a n \<Rightarrow> length (arrays st ! a))"

definition slice_elems ::
  "('w, 'r, 's) store \<Rightarrow> slice \<Rightarrow> ('w, 'r, 's) Middleware option list" where
  "slice_elems st s = (case s of NilSlice \<Rightarrow> [] | Slice a n \<Rightarrow> take n (arrays st ! a))"

text \<open>\<^verbatim>\<open>make([]Middleware, n)\<close>: a new array of \<open>n\<close> zero values, that is, nil funcs.\<close>

definition make_slice :: "nat \<Rightarrow> ('w, 'r, 's) store \<Rightarrow> slice \<times> ('w, 'r, 's) store" where
  "make_slice n st =
     (Slice (length (arrays st)) n, st\<lparr>arrays := arrays st @ [replicate n None]\<rparr>)"

text \<open>\<^verbatim>\<open>copy(dst, src)\<close> overwrites the first \<open>min (len dst) (len src)\<close> elements of the
  destination's array.\<close>

definition copy_slice :: "slice \<Rightarrow> slice \<Rightarrow> ('w, 'r, 's) store \<Rightarrow> ('w, 'r, 's) store" where
  "copy_slice dst src st =
     (case dst of
        NilSlice \<Rightarrow> st
      | Slice a n \<Rightarrow>
          (let k = min n (slice_len src)
           in st\<lparr>arrays := (arrays st)[a := take k (slice_elems st src) @ drop k (arrays st ! a)]\<rparr>))"

text \<open>
  \<^verbatim>\<open>append(s, xs...)\<close>: when the capacity suffices the elements are written into the
  backing array of \<open>s\<close>, behind its length, and the result shares that array; otherwise a
  new array is allocated.  How much room the runtime gives a new array is not fixed by
  the language (only that it is enough), so it is the parameter \<open>grow\<close>, called with the
  old capacity and the length needed.
\<close>

definition append_slice ::
  "(nat \<Rightarrow> nat \<Rightarrow> nat) \<Rightarrow> slice \<Rightarrow> ('w, 'r, 's) Middleware option list \<Rightarrow>
   ('w, 'r, 's) store \<Rightarrow> slice \<times> ('w, 'r, 's) store" where
  "append_slice grow s xs st =
     (let n = slice_len s; need = n + length xs
      in if need \<le> slice_cap st s then
           (case s of
              NilSlice \<Rightarrow> (NilSlice, st)
            | Slice a m \<Rightarrow>
                (Slice a need,
                 st\<lparr>arrays := (arrays st)[a := take n (arrays st ! a) @ xs @
                                               drop need (arrays st ! a)]\<rparr>))
         else
           (Slice (length (arrays st)) need,
            st\<lparr>arrays := arrays st @
               [slice_elems st s @ xs @
                replicate (max need (grow (slice_cap st s) need) - need) None]\<rparr>))"

subsection \<open>Construction and derivation\<close>

text \<open>\<^verbatim>\<open>httprouter.New()\<close>: an empty router; the library switches
  \<^verbatim>\<open>HandleMethodNotAllowed\<close> on by default.\<close>

definition httprouter_New :: "('w, 'r, 's) httprouter" where
  "httprouter_New = \<lparr>HandleMethodNotAllowed = True, routes = []\<rparr>"

text \<open>\<^verbatim>\<open>func New() *Hitch\<close>.  The fields not named in the composite literal are zero:
  the empty string and the nil slice.\<close>

definition New :: "('w, 'r, 's) store \<Rightarrow> nat \<times> ('w, 'r, 's) store" where
  "New st =
     (let r = length (routers st);
          st1 = st\<lparr>routers := routers st @ [httprouter_New]\<rparr>;
          st2 = st1\<lparr>routers := (routers st1)[r := (routers st1 ! r)\<lparr>HandleMethodNotAllowed := False\<rparr>]\<rparr>
      in (length (hitches st2),
          st2\<lparr>hitches := hitches st2 @ [\<lparr>router = r, basePath = '''', middlewares = NilSlice\<rparr>]\<rparr>))"

text \<open>\<^verbatim>\<open>func (h *Hitch) Router() *httprouter.Router\<close>\<close>

definition Router :: "nat \<Rightarrow> ('w, 'r, 's) store \<Rightarrow> error + nat" where
  "Router h st = (case deref (hitches st) h of Inl e \<Rightarrow> Inl e | Inr H \<Rightarrow> Inr (router H))"

text \<open>\<^verbatim>\<open>func (h *Hitch) SubPath(path string) *Hitch\<close>\<close>

definition SubPath ::
  "nat \<Rightarrow> string \<Rightarrow> ('w, 'r, 's) store \<Rightarrow> error + nat \<times> ('w, 'r, 's) store" where
  "SubPath h p st =
     (case deref (hitches st) h of
        Inl e \<Rightarrow> Inl e
      | Inr H \<Rightarrow>
          (let (middlewaresCopy, st1) =
                 (if slice_len (middlewares H) > 0 then
                    (let (c, st') = make_slice (slice_len (middlewares H)) st
                     in (c, copy_slice c (middlewares H) st'))
                  else (NilSlice, st))
           in Inr (length (hitches st1),
                   st1\<lparr>hitches := hitches st1 @
                      [\<lparr>router = router H, basePath = path H p,
                        middlewares = middlewaresCopy\<rparr>]\<rparr>)))"

text \<open>\<^verbatim>\<open>func (h *Hitch) WithMiddleware(middleware ...Middleware) *Hitch\<close>.  The variadic
  argument is only read, so it is the list of the values passed.\<close>

definition WithMiddleware ::
  "(nat \<Rightarrow> nat \<Rightarrow> nat) \<Rightarrow> nat \<Rightarrow> ('w, 'r, 's) Middleware option list \<Rightarrow>
   ('w, 'r, 's) store \<Rightarrow> error + nat \<times> ('w, 'r, 's) store" where
  "WithMiddleware grow h middleware st =
     (case SubPath h '''' st of
        Inl e \<Rightarrow> Inl e
      | Inr (newHitch, st1) \<Rightarrow>
          (case deref (hitches st1) newHitch of
             Inl e \<Rightarrow> Inl e
           | Inr N \<Rightarrow>
               (let (s, st2) = append_slice grow (middlewares N) middleware st1
                in Inr (newHitch,
                        st2\<lparr>hitches := (hitches st2)[newHitch := N\<lparr>middlewares := s\<rparr>]\<rparr>))))"

text \<open>The closure that \<^verbatim>\<open>WithHandlerMiddleware\<close> builds around \<^verbatim>\<open>handler\<close>: a panic of
  \<^verbatim>\<open>handler.ServeHTTP\<close> leaves the function before \<^verbatim>\<open>next\<close> is reached.\<close>

definition handler_middleware :: "('w, 'r, 's) Handler \<Rightarrow> ('w, 'r, 's) Middleware" where
  "handler_middleware handler =
     (\<lambda>next. \<lambda>w req s.
        (case handler w req s of
           Panics s' \<Rightarrow> Panics s'
         | Returns s' \<Rightarrow> next w req s'))"

text \<open>\<^verbatim>\<open>func (h *Hitch) WithHandlerMiddleware(handler http.Handler) *Hitch\<close>\<close>

definition WithHandlerMiddleware ::
  "(nat \<Rightarrow> nat \<Rightarrow> nat) \<Rightarrow> nat \<Rightarrow> ('w, 'r, 's) Handler \<Rightarrow>
   ('w, 'r, 's) store \<Rightarrow> error + nat \<times> ('w, 'r, 's) store" where
  "WithHandlerMiddleware grow h handler st =
     WithMiddleware grow h [Some (handler_middleware handler)] st"

subsection \<open>Registration\<close>

text \<open>
  The two loops of \<^verbatim>\<open>Handle\<close>,
  \<^verbatim>\<open>for i := len(ms) - 1; i >= 0; i-- { handler = ms[i](handler) }\<close>,
  with the counter one above the index about to be read.  Calling a nil func panics.
\<close>

fun wrap_loop ::
  "nat \<Rightarrow> ('w, 'r, 's) Middleware option list \<Rightarrow> ('w, 'r, 's) Handler \<Rightarrow>
   error + ('w, 'r, 's) Handler" where
  "wrap_loop 0 ms handler = Inr handler"
| "wrap_loop (Suc i) ms handler =
     (case ms ! i of
        None \<Rightarrow> Inl NilFunc
      | Some m \<Rightarrow> wrap_loop i ms (m handler))"

text \<open>
  Modelled from the spec: \<^verbatim>\<open>(*httprouter.Router).Handler\<close>, code of the external router.
  It registers the handler under the exact (method, path) pair.  The router reports its
  own errors (a duplicate route, a malformed path) by panicking; which registrations it
  turns down is the parameter \<open>rejects\<close>.
\<close>

definition router_Handler ::
  "(('w, 'r, 's) httprouter \<Rightarrow> string \<Rightarrow> string \<Rightarrow> bool) \<Rightarrow> nat \<Rightarrow> string \<Rightarrow> string \<Rightarrow>
   ('w, 'r, 's) Handler \<Rightarrow> ('w, 'r, 's) store \<Rightarrow> error + ('w, 'r, 's) store" where
  "router_Handler rejects r method p handler st =
     (case deref (routers st) r of
        Inl e \<Rightarrow> Inl e
      | Inr R \<Rightarrow>
          if rejects R method p then Inl RouterPanic
          else Inr (st\<lparr>routers := (routers st)[r := R\<lparr>routes := routes R @ [(method, p, handler)]\<rparr>]\<rparr>))"

text \<open>\<^verbatim>\<open>func (h *Hitch) Handle(method, path string, handler http.Handler,
  middleware ...Middleware)\<close>\<close>

definition Handle ::
  "(('w, 'r, 's) httprouter \<Rightarrow> string \<Rightarrow> string \<Rightarrow> bool) \<Rightarrow> nat \<Rightarrow> string \<Rightarrow> string \<Rightarrow>
   ('w, 'r, 's) Handler \<Rightarrow> ('w, 'r, 's) Middleware option list \<Rightarrow>
   ('w, 'r, 's) store \<Rightarrow> error + ('w, 'r, 's) store" where
  "Handle rejects h method p handler middleware st =
     (case wrap_loop (length middleware) middleware handler of
        Inl e \<Rightarrow> Inl e
      | Inr handler1 \<Rightarrow>
          (case deref (hitches st) h of
             Inl e \<Rightarrow> Inl e
           | Inr H \<Rightarrow>
               (case wrap_loop (slice_len (middlewares H)) (slice_elems st (middlewares H))
                       handler1 of
                  Inl e \<Rightarrow> Inl e
                | Inr handler2 \<Rightarrow> router_Handler rejects (router H) method (path H p) handler2 st)))"

text \<open>The forwarding forms.  \<^verbatim>\<open>http.HandlerFunc\<close> is a handler as it stands.\<close>

definition HandleFunc ::
  "(('w, 'r, 's) httprouter \<Rightarrow> string \<Rightarrow> string \<Rightarrow> bool) \<Rightarrow> nat \<Rightarrow> string \<Rightarrow> string \<Rightarrow>
   ('w, 'r, 's) Handler \<Rightarrow> ('w, 'r, 's) Middleware option list \<Rightarrow>
   ('w, 'r, 's) store \<Rightarrow> error + ('w, 'r, 's) store" where
  "HandleFunc rejects h method p handler middleware st =
     Handle rejects h method p handler middleware st"

definition GET ::
  "(('w, 'r, 's) httprouter \<Rightarrow> string \<Rightarrow> string \<Rightarrow> bool) \<Rightarrow> nat \<Rightarrow> string \<Rightarrow>
   ('w, 'r, 's) Handler \<Rightarrow> ('w, 'r, 's) Middleware option list \<Rightarrow>
   ('w, 'r, 's) store \<Rightarrow> error + ('w, 'r, 's) store" where
  "GET rejects h p handler middleware st = Handle rejects h ''GET'' p handler middleware st"

definition PUT ::
  "(('w, 'r, 's) httprouter \<Rightarrow> string \<Rightarrow> string \<Rightarrow> bool) \<Rightarrow> nat \<Rightarrow> string \<Rightarrow>
   ('w, 'r, 's) Handler \<Rightarrow> ('w, 'r, 's) Middleware option list \<Rightarrow>
   ('w, 'r, 's) store \<Rightarrow> error + ('w, 'r, 's) store" where
  "PUT rejects h p handler middleware st = Handle rejects h ''PUT'' p handler middleware st"

definition POST ::
  "(('w, 'r, 's) httprouter \<Rightarrow> string \<Rightarrow> string \<Rightarrow> bool) \<Rightarrow> nat \<Rightarrow> string \<Rightarrow>
   ('w, 'r, 's) Handler \<Rightarrow> ('w, 'r, 's) Middleware option list \<Rightarrow>
   ('w, 'r, 's) store \<Rightarrow> error + ('w, 'r, 's) store" where
  "POST rejects h p handler middleware st = Handle rejects h ''POST'' p handler middleware st"

definition PATCH ::
  "(('w, 'r, 's) httprouter \<Rightarrow> string \<Rightarrow> string \<Rightarrow> bool) \<Rightarrow> nat \<Rightarrow> string \<Rightarrow>
   ('w, 'r, 's) Handler \<Rightarrow> ('w, 'r, 's) Middleware option list \<Rightarrow>
   ('w, 'r, 's) store \<Rightarrow> error + ('w, 'r, 's) store" where
  "PATCH rejects h p handler middleware st = Handle rejects h ''PATCH'' p handler middleware st"

definition DELETE ::
  "(('w, 'r, 's) httprouter \<Rightarrow> string \<Rightarrow> string \<Rightarrow> bool) \<Rightarrow> nat \<Rightarrow> string \<Rightarrow>
   ('w, 'r, 's) Handler \<Rightarrow> ('w, 'r, 's) Middleware option list \<Rightarrow>
   ('w, 'r, 's) store \<Rightarrow> error + ('w, 'r, 's) store" where
  "DELETE rejects h p handler middleware st =
     Handle rejects h ''DELETE'' p handler middleware st"

definition OPTIONS ::
  "(('w, 'r, 's) httprouter \<Rightarrow> string \<Rightarrow> string \<Rightarrow> bool) \<Rightarrow> nat \<Rightarrow> string \<Rightarrow>
   ('w, 'r, 's) Handler \<Rightarrow> ('w, 'r, 's) Middleware option list \<Rightarrow>
   ('w, 'r, 's) store \<Rightarrow> error + ('w, 'r, 's) store" where
  "OPTIONS rejects h p handler middleware st =
     Handle rejects h ''OPTIONS'' p handler middleware st"

subsection \<open>Dispatch and parameters\<close>

text \<open>
  Modelled from the spec: the dispatch of the external router, which the repository does
  not contain.  A request whose (method, path) pair is registered is served by the
  handler registered first for it; otherwise the flag decides what a request to a path
  registered under another method gets.  Patterns with named segments are not modelled:
  paths match exactly.
\<close>

datatype 's response = Served "'s outcome" | NotFound | MethodNotAllowed

definition ServeHTTP ::
  "('w, 'r, 's) httprouter \<Rightarrow> 'w \<Rightarrow> string \<Rightarrow> string \<Rightarrow> 'r \<Rightarrow> 's \<Rightarrow> 's response" where
  "ServeHTTP R w method p req s =
     (case find (\<lambda>(m, q, h). m = method \<and> q = p) (routes R) of
        Some (m, q, h) \<Rightarrow> Served (h w req s)
      | None \<Rightarrow>
          if HandleMethodNotAllowed R \<and> list_ex (\<lambda>(m, q, h). q = p) (routes R)
          then MethodNotAllowed else NotFound)"

text \<open>
  \<^verbatim>\<open>httprouter.Params\<close> is a slice of key/value pairs.  A request carries a context, a
  finite map from keys to values of any type; the router stores the bindings of a match
  under its own key \<^verbatim>\<open>ParamsKey\<close>.
\<close>

type_synonym Params = "(string \<times> string) list"

datatype ctx_key = ParamsKey | OtherKey nat

datatype ctx_value = ParamsValue Params | OtherValue nat

record Request =
  ctx :: "(ctx_key \<rightharpoonup> ctx_value) option"

text \<open>\<^verbatim>\<open>(*http.Request).Context\<close>: the context of the request, the empty background
  context when none was set.\<close>

definition Request_Context :: "Request \<Rightarrow> (ctx_key \<rightharpoonup> ctx_value)" where
  "Request_Context req = (case ctx req of None \<Rightarrow> Map.empty | Some c \<Rightarrow> c)"

text \<open>
  Modelled from the spec: \<^verbatim>\<open>httprouter.ParamsFromContext\<close>, code of the external router.
  It returns the bindings attached to the context, and an empty collection when none
  were attached.
\<close>

definition ParamsFromContext :: "(ctx_key \<rightharpoonup> ctx_value) \<Rightarrow> Params" where
  "ParamsFromContext c = (case c ParamsKey of Some (ParamsValue ps) \<Rightarrow> ps | _ \<Rightarrow> [])"

text \<open>Modelled from the spec: what the router's dispatch does to the request of a match
  with bindings \<open>ps\<close>, before it runs the handler.\<close>

definition attach_params :: "Params \<Rightarrow> Request \<Rightarrow> Request" where
  "attach_params ps req = req\<lparr>ctx := Some ((Request_Context req)(ParamsKey \<mapsto> ParamsValue ps))\<rparr>"

text \<open>\<^verbatim>\<open>func Params(req *http.Request) httprouter.Params\<close>.  The argument is a pointer;
  \<^term>\<open>None\<close> is the nil pointer, which \<^verbatim>\<open>req.Context()\<close> dereferences.\<close>

definition Params :: "Request option \<Rightarrow> error + Params" where
  "Params req =
     (case req of
        None \<Rightarrow> Inl NilPointer
      | Some r \<Rightarrow> Inr (ParamsFromContext (Request_Context r)))"

subsection \<open>Well-formed stores\<close>

text \<open>Go is memory safe: the slice of a facade is nil or lies within a live backing
  array.  Every operation below keeps this, starting from the empty store.\<close>

definition wf_slice :: "('w, 'r, 's) store \<Rightarrow> slice \<Rightarrow> bool" where
  "wf_slice st s =
     (case s of NilSlice \<Rightarrow> True
      | Slice a n \<Rightarrow> a < length (arrays st) \<and> n \<le> length (arrays st ! a))"

definition wf_store :: "('w, 'r, 's) store \<Rightarrow> bool" where
  "wf_store st = list_all (\<lambda>H. wf_slice st (middlewares H)) (hitches st)"

text \<open>The middleware list of the facade at address \<open>h\<close>, read through the store.\<close>

definition middlewares_of ::
  "('w, 'r, 's) store \<Rightarrow> nat \<Rightarrow> ('w, 'r, 's) Middleware option list" where
  "middlewares_of st h = slice_elems st (middlewares (hitches st ! h))"

text \<open>A list of objects grows when objects are allocated behind the ones it holds, which
  stay as they are.\<close>

definition grows :: "'a list \<Rightarrow> 'a list \<Rightarrow> bool" where
  "grows xs ys \<longleftrightarrow> length xs \<le> length ys \<and> take (length xs) ys = xs"

definition empty_store :: "('w, 'r, 's) store" where
  "empty_store = \<lparr>routers = [], arrays = [], hitches = []\<rparr>"

subsection \<open>Sequences of operations\<close>

text \<open>One operation of the package that returns: a construction, a derivation or a
  registration (\<^verbatim>\<open>WithHandlerMiddleware\<close> is a \<^verbatim>\<open>WithMiddleware\<close>, the forwarding forms
  are \<^verbatim>\<open>Handle\<close>).  \<open>steps\<close> are any number of them.\<close>

inductive step :: "('w, 'r, 's) store \<Rightarrow> ('w, 'r, 's) store \<Rightarrow> bool" where
  step_New: "step st (snd (New st))"
| step_SubPath: "SubPath h p st = Inr (g, st') \<Longrightarrow> step st st'"
| step_WithMiddleware: "WithMiddleware grow h mw st = Inr (g, st') \<Longrightarrow> step st st'"
| step_Handle: "Handle rejects h method p handler mw st = Inr st' \<Longrightarrow> step st st'"

definition steps :: "('w, 'r, 's) store \<Rightarrow> ('w, 'r, 's) store \<Rightarrow> bool" where
  "steps = rtranclp step"

subsection \<open>Notions of the specification\<close>

text \<open>
  The specification describes \<^verbatim>\<open>path\<close> through two helpers that the source does not
  name.  They are written here from the specification's words, to be compared with what
  the source computes: the first removes a trailing slash, the second makes a segment
  that is not empty begin with a slash.
\<close>

definition trimTrailingSlash :: "string \<Rightarrow> string" where
  "trimTrailingSlash b = (if b \<noteq> [] \<and> last b = CHR ''/'' then butlast b else b)"

definition normalizeLeadingSlash :: "string \<Rightarrow> string" where
  "normalizeLeadingSlash p =
     (if p = [] then [] else if hd p = CHR ''/'' then p else CHR ''/'' # p)"

text \<open>The join point of \<^verbatim>\<open>path\<close> is where the part taken from the base path ends and the
  part taken from the segment begins; a double slash is there when the characters on
  both sides of it are slashes.\<close>

definition join_point :: "Hitch \<Rightarrow> nat" where
  "join_point h = length (TrimSuffix (basePath h) ''/'')"

definition double_slash_at :: "nat \<Rightarrow> string \<Rightarrow> bool" where
  "double_slash_at i s \<longleftrightarrow>
     0 < i \<and> i < length s \<and> s ! (i - 1) = CHR ''/'' \<and> s ! i = CHR ''/''"

text \<open>A middleware that does work before and after delegating to the handler it wraps,
  and passes a panic of that handler on.\<close>

definition around :: "('s \<Rightarrow> 's) \<Rightarrow> ('s \<Rightarrow> 's) \<Rightarrow> ('w, 'r, 's) Middleware" where
  "around before after =
     (\<lambda>next. \<lambda>w req s.
        (case next w req (before s) of
           Panics s' \<Rightarrow> Panics s'
         | Returns s' \<Rightarrow> Returns (after s')))"

subsection \<open>A worked example\<close>

text \<open>Handlers and middleware that record what they do in a trace, a router that turns
  down a pair registered before, and a runtime that doubles capacities.\<close>

datatype event = Enter string | Leave string | Handled string

definition logging :: "string \<Rightarrow> ('w, 'r, event list) Middleware" where
  "logging name =
     (\<lambda>next. \<lambda>w req s.
        (case next w req (s @ [Enter name]) of
           Panics s' \<Rightarrow> Panics s'
         | Returns s' \<Rightarrow> Returns (s' @ [Leave name])))"

definition terminal :: "string \<Rightarrow> ('w, 'r, event list) Handler" where
  "terminal name = (\<lambda>w req s. Returns (s @ [Handled name]))"

definition rejects_duplicates :: "('w, 'r, 's) httprouter \<Rightarrow> string \<Rightarrow> string \<Rightarrow> bool" where
  "rejects_duplicates R method p = list_ex (\<lambda>(m, q, h). m = method \<and> q = p) (routes R)"

definition grow_double :: "nat \<Rightarrow> nat \<Rightarrow> nat" where
  "grow_double old need = 2 * old"

text \<open>The store after \<^verbatim>\<open>r := New(); m := r.WithMiddleware(A, B); v := m.SubPath("/v1/")\<close>:
  the facades \<open>r\<close>, \<open>m\<close> and \<open>v\<close> are at the addresses 0, 1 and 2.\<close>

definition example_store :: "(unit, unit, event list) store" where
  "example_store =
     snd (projr (SubPath 1 ''/v1/''
       (snd (projr (WithMiddleware grow_double 0 [Some (logging ''A''), Some (logging ''B'')]
         (snd (New empty_store)))))))"

text \<open>\<^verbatim>\<open>c := m.SubPath("/api")\<close> and then \<^verbatim>\<open>g := c.WithMiddleware(C)\<close>: the facades at the
  addresses 3 and 4.\<close>

definition example_child :: "(unit, unit, event list) store" where
  "example_child = snd (projr (SubPath 1 ''/api'' example_store))"

definition example_grandchild :: "(unit, unit, event list) store" where
  "example_grandchild =
     snd (projr (WithMiddleware grow_double 3 [Some (logging ''C'')] example_child))"

text \<open>Later, \<^verbatim>\<open>m.WithMiddleware(D)\<close>: the facade at the address 5.\<close>

definition example_later :: "(unit, unit, event list) store" where
  "example_later =
     snd (projr (WithMiddleware grow_double 1 [Some (logging ''D'')] example_grandchild))"

section \<open>Properties\<close>

subsection \<open>Strings and path composition\<close>

lemma HasPrefix_slash: "HasPrefix p ''/'' \<longleftrightarrow> p \<noteq> [] \<and> hd p = CHR ''/''"
  by (cases p) (auto simp: HasPrefix_def)

lemma HasSuffix_slash: "HasSuffix b ''/'' \<longleftrightarrow> b \<noteq> [] \<and> last b = CHR ''/''"
proof (cases b rule: rev_cases)
  case Nil then show ?thesis by (simp add: HasSuffix_def)
next
  case (snoc ys y) then show ?thesis by (simp add: HasSuffix_def)
qed

lemma TrimSuffix_slash: "TrimSuffix b ''/'' = trimTrailingSlash b"
  by (cases b rule: rev_cases) (simp_all add: TrimSuffix_def HasSuffix_slash trimTrailingSlash_def)

lemma normalize_eq: "(if p \<noteq> '''' \<and> \<not> HasPrefix p ''/'' then ''/'' @ p else p) = normalizeLeadingSlash p"
  by (cases p) (auto simp: HasPrefix_slash normalizeLeadingSlash_def)

lemma path_eq: "path H p = trimTrailingSlash (basePath H) @ normalizeLeadingSlash p"
  unfolding path_def Let_def TrimSuffix_slash normalize_eq by (rule refl)

lemma HasSuffix_2slash: "HasSuffix b ''//'' \<longleftrightarrow> HasSuffix (trimTrailingSlash b) ''/'' \<and> HasSuffix b ''/''"
proof (cases b rule: rev_cases)
  case Nil then show ?thesis by (simp add: HasSuffix_def trimTrailingSlash_def)
next
  case (snoc ys y)
  note b = this
  show ?thesis
  proof (cases ys rule: rev_cases)
    case Nil with b show ?thesis by (simp add: HasSuffix_def trimTrailingSlash_def)
  next
    case (snoc zs z)
    with b show ?thesis by (auto simp add: HasSuffix_def trimTrailingSlash_def butlast_append)
  qed
qed

lemma wrap_loop_foldr:
  "i \<le> length ms \<Longrightarrow> \<forall>j<i. ms ! j \<noteq> None \<Longrightarrow>
   wrap_loop i ms handler = Inr (foldr (\<lambda>m acc. the m acc) (take i ms) handler)"
proof (induction i arbitrary: handler)
  case 0 then show ?case by simp
next
  case (Suc i)
  then obtain m where m: "ms ! i = Some m" by (metis lessI not_None_eq)
  have "wrap_loop (Suc i) ms handler = wrap_loop i ms (m handler)" by (simp add: m)
  also have "\<dots> = Inr (foldr (\<lambda>m acc. the m acc) (take i ms) (m handler))"
    using Suc by simp
  also have "foldr (\<lambda>m acc. the m acc) (take i ms) (m handler) = foldr (\<lambda>m acc. the m acc) (take (Suc i) ms) handler"
    using Suc.prems(1) by (simp add: take_Suc_conv_app_nth m)
  finally show ?case .
qed

lemma wrap_loop_nil: "i \<le> length ms \<Longrightarrow> j < i \<Longrightarrow> ms ! j = None \<Longrightarrow> wrap_loop i ms handler = Inl NilFunc"
proof (induction i arbitrary: handler)
  case 0 then show ?case by simp
next
  case (Suc i)
  then show ?case by (cases "ms ! i") (auto simp: less_Suc_eq)
qed

subsection \<open>The store under derivation and registration\<close>

lemma grows_refl [simp]: "grows xs xs"
  by (simp add: grows_def)

lemma grows_append [simp]: "grows xs (xs @ zs)"
  by (simp add: grows_def)

lemma grows_nth: "grows xs ys \<Longrightarrow> i < length xs \<Longrightarrow> ys ! i = xs ! i"
  by (metis grows_def nth_take)

lemma grows_length: "grows xs ys \<Longrightarrow> length xs \<le> length ys"
  by (simp add: grows_def)

lemma deref_Inr: "deref xs a = Inr x \<longleftrightarrow> a < length xs \<and> x = xs ! a"
  by (auto simp: deref_def)

lemma deref_Inl: "deref xs a = Inl e \<longleftrightarrow> \<not> a < length xs \<and> e = NilPointer"
  by (auto simp: deref_def)

lemma wf_slice_len: "wf_slice st s \<Longrightarrow> length (slice_elems st s) = slice_len s"
  by (cases s) (auto simp: wf_slice_def slice_elems_def slice_len_def)

lemma SubPath_result:
  assumes "deref (hitches st) h = Inr H" and "wf_slice st (middlewares H)"
  shows "SubPath h p st =
    Inr (length (hitches st),
         st\<lparr>arrays := arrays st @
               (if 0 < slice_len (middlewares H) then [slice_elems st (middlewares H)] else []),
            hitches := hitches st @
               [\<lparr>router = router H, basePath = path H p,
                 middlewares = (if 0 < slice_len (middlewares H)
                                then Slice (length (arrays st)) (slice_len (middlewares H))
                                else NilSlice)\<rparr>]\<rparr>)"
proof (cases "middlewares H")
  case NilSlice
  then show ?thesis using assms
    by (simp add: SubPath_def slice_len_def)
next
  case (Slice a n)
  then show ?thesis using assms
    by (auto simp add: SubPath_def slice_len_def make_slice_def copy_slice_def slice_elems_def
        wf_slice_def nth_append Let_def)
qed

lemma append_nil_slice:
  "append_slice grow NilSlice mw st =
     (if mw = [] then (NilSlice, st)
      else (Slice (length (arrays st)) (length mw),
            st\<lparr>arrays := arrays st @ [mw @ replicate (max (length mw) (grow 0 (length mw)) - length mw) None]\<rparr>))"
  by (simp add: append_slice_def slice_len_def slice_cap_def slice_elems_def Let_def)

lemma append_full_slice:
  assumes "a < length (arrays st)" and "length (arrays st ! a) = n"
  shows "append_slice grow (Slice a n) mw st =
     (if mw = [] then (Slice a n, st)
      else (Slice (length (arrays st)) (n + length mw),
            st\<lparr>arrays := arrays st @
               [arrays st ! a @ mw @
                replicate (max (n + length mw) (grow n (n + length mw)) - (n + length mw)) None]\<rparr>))"
  using assms
  by (auto simp add: append_slice_def slice_len_def slice_cap_def slice_elems_def Let_def)

lemma WithMiddleware_result:
  assumes H: "deref (hitches st) h = Inr H" and wf: "wf_slice st (middlewares H)"
  shows "\<exists>st2 N. WithMiddleware grow h mw st = Inr (length (hitches st), st2) \<and>
           routers st2 = routers st \<and> grows (arrays st) (arrays st2) \<and>
           hitches st2 = hitches st @ [N] \<and>
           router N = router H \<and> basePath N = path H '''' \<and>
           slice_elems st2 (middlewares N) = slice_elems st (middlewares H) @ mw \<and>
           wf_slice st2 (middlewares N) \<and>
           (case middlewares N of NilSlice \<Rightarrow> True | Slice a n \<Rightarrow> length (arrays st) \<le> a)"
proof (cases "0 < slice_len (middlewares H)")
  case False
  then have e: "slice_elems st (middlewares H) = []"
    using wf_slice_len[OF wf] by simp
  show ?thesis
    using False e
    by (cases "mw = []")
       (simp_all add: WithMiddleware_def SubPath_result[OF H wf] deref_def append_nil_slice
          slice_elems_def wf_slice_def)
next
  case True
  have l: "length (slice_elems st (middlewares H)) = slice_len (middlewares H)"
    by (rule wf_slice_len[OF wf])
  show ?thesis
    using True l
    by (cases "mw = []")
       (simp_all add: WithMiddleware_def SubPath_result[OF H wf] deref_def append_full_slice
          slice_elems_def wf_slice_def nth_append)
qed

lemmas eval_defs = New_def httprouter_New_def empty_store_def SubPath_def WithMiddleware_def
  deref_def slice_len_def slice_cap_def slice_elems_def make_slice_def copy_slice_def
  append_slice_def path_def TrimSuffix_def HasSuffix_def HasPrefix_def Let_def
  grow_double_def Handle_def router_Handler_def rejects_duplicates_def

lemma example_store_eq:
  "example_store =
     \<lparr>routers = [\<lparr>HandleMethodNotAllowed = False, routes = []\<rparr>],
      arrays = [[Some (logging ''A''), Some (logging ''B'')],
                [Some (logging ''A''), Some (logging ''B'')]],
      hitches = [\<lparr>router = 0, basePath = '''', middlewares = NilSlice\<rparr>,
                 \<lparr>router = 0, basePath = '''', middlewares = Slice 0 2\<rparr>,
                 \<lparr>router = 0, basePath = ''/v1/'', middlewares = Slice 1 2\<rparr>]\<rparr>"
  by (simp add: example_store_def eval_defs)

lemma wf_slice_prefix:
  assumes "grows (arrays st) (arrays st')" and "wf_slice st s"
  shows "wf_slice st' s \<and> slice_elems st' s = slice_elems st s"
  using assms grows_length[of "arrays st" "arrays st'"]
  by (cases s) (auto simp: wf_slice_def slice_elems_def grows_nth)

lemma wf_store_nth:
  "wf_store st \<Longrightarrow> h < length (hitches st) \<Longrightarrow> wf_slice st (middlewares (hitches st ! h))"
  by (simp add: wf_store_def list_all_length)

lemma wf_store_deref:
  "wf_store st \<Longrightarrow> deref (hitches st) h = Inr H \<Longrightarrow> wf_slice st (middlewares H)"
  by (simp add: deref_Inr wf_store_nth)

lemma wf_store_extend:
  assumes "wf_store st" and "grows (arrays st) (arrays st')" and "hitches st' = hitches st @ [N]"
    and "wf_slice st' (middlewares N)"
  shows "wf_store st'"
  using assms wf_slice_prefix[of st st'] by (auto simp: wf_store_def list_all_iff)

lemma frame_extend:
  assumes "wf_store st" and "grows (arrays st) (arrays st')" and "hitches st' = hitches st @ [N]"
    and "f < length (hitches st)"
  shows "hitches st' ! f = hitches st ! f \<and> middlewares_of st' f = middlewares_of st f"
  using assms wf_slice_prefix[of st st' "middlewares (hitches st ! f)"] wf_store_nth[of st f]
  by (simp add: middlewares_of_def nth_append)

lemma wf_empty_store: "wf_store empty_store"
  by (simp add: wf_store_def empty_store_def)

lemma wf_New: "wf_store st \<Longrightarrow> wf_store (snd (New st))"
  by (simp add: New_def Let_def wf_store_def wf_slice_def list_all_iff split: slice.splits)

lemma SubPath_props:
  assumes H: "deref (hitches st) h = Inr H" and wf: "wf_slice st (middlewares H)"
  shows "\<exists>st' N. SubPath h p st = Inr (length (hitches st), st') \<and>
           routers st' = routers st \<and> grows (arrays st) (arrays st') \<and>
           hitches st' = hitches st @ [N] \<and>
           router N = router H \<and> basePath N = path H p \<and>
           slice_elems st' (middlewares N) = slice_elems st (middlewares H) \<and>
           wf_slice st' (middlewares N) \<and>
           (case middlewares N of NilSlice \<Rightarrow> True | Slice a n \<Rightarrow> length (arrays st) \<le> a)"
proof (cases "0 < slice_len (middlewares H)")
  case False
  then have "slice_elems st (middlewares H) = []"
    using wf_slice_len[OF wf] by simp
  with False show ?thesis
    by (simp add: SubPath_result[OF H wf] slice_elems_def wf_slice_def)
next
  case True
  then show ?thesis
    using wf_slice_len[OF wf]
    by (simp add: SubPath_result[OF H wf] slice_elems_def wf_slice_def)
qed

lemma wf_SubPath:
  assumes "wf_store st" and "SubPath h p st = Inr (g, st')"
  shows "wf_store st'"
proof -
  from assms(2) obtain H where H: "deref (hitches st) h = Inr H"
    by (auto simp: SubPath_def split: sum.splits)
  from SubPath_props[OF H wf_store_deref[OF assms(1) H], of p] assms
  show ?thesis by (auto intro: wf_store_extend)
qed

lemma wf_WithMiddleware:
  assumes "wf_store st" and "WithMiddleware grow h mw st = Inr (g, st')"
  shows "wf_store st'"
proof -
  from assms(2) obtain H where H: "deref (hitches st) h = Inr H"
    by (auto simp: WithMiddleware_def SubPath_def split: sum.splits)
  from WithMiddleware_result[OF H wf_store_deref[OF assms(1) H], of grow mw] assms
  show ?thesis by (auto intro: wf_store_extend)
qed

lemma Handle_result:
  assumes "Handle rejects h method p handler mw st = Inr st'"
  shows "\<exists>H R handler'. deref (hitches st) h = Inr H \<and> deref (routers st) (router H) = Inr R \<and>
           \<not> rejects R method (path H p) \<and>
           st' = st\<lparr>routers := (routers st)[router H :=
                      R\<lparr>routes := routes R @ [(method, path H p, handler')]\<rparr>]\<rparr>"
  using assms
  by (auto simp: Handle_def router_Handler_def split: sum.splits if_splits)

lemma wf_Handle:
  assumes "wf_store st" and "Handle rejects h method p handler mw st = Inr st'"
  shows "wf_store st'"
  using Handle_result[OF assms(2)] assms(1)
  by (auto simp: wf_store_def wf_slice_def list_all_iff split: slice.splits)

lemma Handle_success:
  assumes H: "deref (hitches st) h = Inr H" and wf: "wf_slice st (middlewares H)"
    and R: "deref (routers st) (router H) = Inr R"
    and ok: "\<not> rejects R method (path H p)"
    and mw: "None \<notin> set mw" and own: "None \<notin> set (slice_elems st (middlewares H))"
  shows "Handle rejects h method p handler mw st =
     Inr (st\<lparr>routers := (routers st)[router H :=
            R\<lparr>routes := routes R @
              [(method, path H p,
                foldr (\<lambda>m acc. the m acc) (slice_elems st (middlewares H) @ mw) handler)]\<rparr>]\<rparr>)"
proof -
  have 1: "wrap_loop (length mw) mw handler = Inr (foldr (\<lambda>m acc. the m acc) mw handler)"
    using wrap_loop_foldr[of "length mw" mw handler] mw by (auto simp: in_set_conv_nth)
  let ?own = "slice_elems st (middlewares H)"
  have 2: "wrap_loop (slice_len (middlewares H)) ?own h1 = Inr (foldr (\<lambda>m acc. the m acc) ?own h1)" for h1
    using wrap_loop_foldr[of "length ?own" ?own h1] own wf_slice_len[OF wf]
    by (auto simp: in_set_conv_nth)
  show ?thesis
    by (simp add: Handle_def 1 2 H R ok router_Handler_def)
qed

lemma logging_around:
  "logging name = around (\<lambda>s. s @ [Enter name]) (\<lambda>s. s @ [Leave name])"
  by (simp add: logging_def around_def)

lemma wf_example_store: "wf_store example_store"
  by (simp add: example_store_eq wf_store_def wf_slice_def)

lemma example_child_eq:
  "example_child =
     \<lparr>routers = [\<lparr>HandleMethodNotAllowed = False, routes = []\<rparr>],
      arrays = [[Some (logging ''A''), Some (logging ''B'')],
                [Some (logging ''A''), Some (logging ''B'')],
                [Some (logging ''A''), Some (logging ''B'')]],
      hitches = [\<lparr>router = 0, basePath = '''', middlewares = NilSlice\<rparr>,
                 \<lparr>router = 0, basePath = '''', middlewares = Slice 0 2\<rparr>,
                 \<lparr>router = 0, basePath = ''/v1/'', middlewares = Slice 1 2\<rparr>,
                 \<lparr>router = 0, basePath = ''/api'', middlewares = Slice 2 2\<rparr>]\<rparr>"
  by (simp add: example_child_def example_store_eq eval_defs)

lemma example_grandchild_eq:
  "example_grandchild =
     \<lparr>routers = [\<lparr>HandleMethodNotAllowed = False, routes = []\<rparr>],
      arrays = [[Some (logging ''A''), Some (logging ''B'')],
                [Some (logging ''A''), Some (logging ''B'')],
                [Some (logging ''A''), Some (logging ''B'')],
                [Some (logging ''A''), Some (logging ''B'')],
                [Some (logging ''A''), Some (logging ''B''), Some (logging ''C''), None]],
      hitches = [\<lparr>router = 0, basePath = '''', middlewares = NilSlice\<rparr>,
                 \<lparr>router = 0, basePath = '''', middlewares = Slice 0 2\<rparr>,
                 \<lparr>router = 0, basePath = ''/v1/'', middlewares = Slice 1 2\<rparr>,
                 \<lparr>router = 0, basePath = ''/api'', middlewares = Slice 2 2\<rparr>,
                 \<lparr>router = 0, basePath = ''/api'', middlewares = Slice 4 3\<rparr>]\<rparr>"
  by (simp add: example_grandchild_def example_child_eq eval_defs)

lemma Handle_keeps_flags:
  assumes "Handle rejects h method p handler mw st = Inr st'"
  shows "map HandleMethodNotAllowed (routers st') = map HandleMethodNotAllowed (routers st)"
proof -
  from Handle_result[OF assms] obtain H R handler' where
    R: "deref (routers st) (router H) = Inr R" and
    s: "st' = st\<lparr>routers := (routers st)[router H :=
                      R\<lparr>routes := routes R @ [(method, path H p, handler')]\<rparr>]\<rparr>"
    by blast
  show ?thesis
    using R unfolding s
    by (auto simp: deref_Inr map_update list_update_same_conv)
qed

lemma step_frame:
  assumes "wf_store st" and "step st st'"
  shows "wf_store st' \<and> length (hitches st) \<le> length (hitches st') \<and>
         (\<forall>f<length (hitches st).
            hitches st' ! f = hitches st ! f \<and> middlewares_of st' f = middlewares_of st f)"
  using assms(2)
proof cases
  case step_New
  then show ?thesis using wf_New[OF assms(1)]
    by (auto simp: New_def Let_def middlewares_of_def slice_elems_def nth_append
        split: slice.splits)
next
  case (step_SubPath h p g)
  then obtain H where H: "deref (hitches st) h = Inr H"
    by (auto simp: SubPath_def split: sum.splits)
  from SubPath_props[OF H wf_store_deref[OF assms(1) H], of p] step_SubPath
  obtain N where "grows (arrays st) (arrays st')" "hitches st' = hitches st @ [N]"
    by auto
  then show ?thesis
    using frame_extend[OF assms(1), of st' N] wf_SubPath[OF assms(1) step_SubPath] by simp
next
  case (step_WithMiddleware grow h mw g)
  then obtain H where H: "deref (hitches st) h = Inr H"
    by (auto simp: WithMiddleware_def SubPath_def split: sum.splits)
  from WithMiddleware_result[OF H wf_store_deref[OF assms(1) H], of grow mw] step_WithMiddleware
  obtain N where "grows (arrays st) (arrays st')" "hitches st' = hitches st @ [N]"
    by auto
  then show ?thesis
    using frame_extend[OF assms(1), of st' N] wf_WithMiddleware[OF assms(1) step_WithMiddleware]
    by simp
next
  case (step_Handle rejects h m p handler mw)
  from Handle_result[OF this] obtain rs where "st' = st\<lparr>routers := rs\<rparr>" by blast
  then show ?thesis
    using wf_Handle[OF assms(1) step_Handle]
    by (simp add: middlewares_of_def slice_elems_def split: slice.splits)
qed

lemma steps_frame:
  assumes "steps st st'" and "wf_store st"
  shows "wf_store st' \<and> length (hitches st) \<le> length (hitches st') \<and>
         (\<forall>f<length (hitches st).
            hitches st' ! f = hitches st ! f \<and> middlewares_of st' f = middlewares_of st f)"
  using assms unfolding steps_def
proof (induction rule: rtranclp_induct)
  case base
  then show ?case by simp
next
  case (step y z)
  from step.IH[OF step.prems] step_frame[OF _ step.hyps(2)]
  show ?case by (metis less_le_trans order_trans)
qed

lemma step_flags:
  assumes "step st st'"
  shows "length (routers st) \<le> length (routers st') \<and>
         (\<forall>r<length (routers st).
            HandleMethodNotAllowed (routers st' ! r) = HandleMethodNotAllowed (routers st ! r))"
  using assms
proof cases
  case step_New
  then show ?thesis by (simp add: New_def Let_def nth_append)
next
  case (step_SubPath h p g)
  then show ?thesis
    by (auto simp: SubPath_def Let_def make_slice_def copy_slice_def
        split: sum.splits if_splits slice.splits)
next
  case (step_WithMiddleware grow h mw g)
  then show ?thesis
    by (auto simp: WithMiddleware_def SubPath_def Let_def make_slice_def copy_slice_def
        append_slice_def split: sum.splits if_splits slice.splits prod.splits)
next
  case (step_Handle rejects h m p handler mw)
  from Handle_keeps_flags[OF this] show ?thesis
    by (metis length_map nth_map order_refl)
qed

lemma steps_flags:
  assumes "steps st st'"
  shows "length (routers st) \<le> length (routers st') \<and>
         (\<forall>r<length (routers st).
            HandleMethodNotAllowed (routers st' ! r) = HandleMethodNotAllowed (routers st ! r))"
  using assms unfolding steps_def
proof (induction rule: rtranclp_induct)
  case base
  then show ?case by simp
next
  case (step y z)
  from step.IH step_flags[OF step.hyps(2)]
  show ?case by (metis less_le_trans order_trans)
qed

lemma example_later_eq:
  "WithMiddleware grow_double 1 [Some (logging ''D'')] example_grandchild = Inr (5, example_later)"
  by (simp add: example_later_def example_grandchild_eq eval_defs)

text \<open>Every store that the operations build from the empty one is well formed.\<close>

lemma reachable_wf: "steps empty_store st \<Longrightarrow> wf_store st"
  using steps_frame[of empty_store st] wf_empty_store by blast

text \<open>With the flag as the library sets it by default, a request to a registered path
  with another method is answered "method not allowed".\<close>

lemma default_router_method_not_allowed:
  "method' \<noteq> method \<Longrightarrow>
   ServeHTTP (httprouter_New\<lparr>routes := [(method, p, handler)]\<rparr>) w method' p req s =
     MethodNotAllowed"
  by (simp add: ServeHTTP_def httprouter_New_def)

lemma Params_nil: "Params None = Inl NilPointer"
  by (simp add: Params_def)

subsection \<open>Claims\<close>

text \<open>
  Claim C1.  On a facade whose middleware list is \<open>[A, B]\<close>, \<^verbatim>\<open>Handle\<close> called with the
  per-call middleware \<open>[C, D]\<close> registers, when the router accepts the route, the handler
  \<open>A (B (C (D handler)))\<close> under the composed path: the per-call middleware are folded
  around the handler from last to first, the facade's own middleware around that.  For
  middleware that work before and after delegating, a request therefore runs the work
  before in the order A, B, C, D, then the handler, then the work after in the order
  D, C, B, A.
\<close>

theorem Handle_order:
  assumes "wf_store st" and "deref (hitches st) h = Inr H"
    and "middlewares_of st h = [Some A, Some B]"
    and "deref (routers st) (router H) = Inr R" and "\<not> rejects R method (path H p)"
  shows "Handle rejects h method p handler [Some C, Some D] st =
           Inr (st\<lparr>routers := (routers st)[router H :=
                  R\<lparr>routes := routes R @ [(method, path H p, A (B (C (D handler))))]\<rparr>]\<rparr>) \<and>
         (\<forall>a a' b b' c c' d d' t w req s.
            A = around a a' \<longrightarrow> B = around b b' \<longrightarrow> C = around c c' \<longrightarrow> D = around d d' \<longrightarrow>
            handler w req (d (c (b (a s)))) = Returns t \<longrightarrow>
            A (B (C (D handler))) w req s = Returns (a' (b' (c' (d' t)))))"
proof -
  have own: "slice_elems st (middlewares H) = [Some A, Some B]"
    using assms(2,3) by (simp add: middlewares_of_def deref_Inr)
  have "Handle rejects h method p handler [Some C, Some D] st =
           Inr (st\<lparr>routers := (routers st)[router H :=
                  R\<lparr>routes := routes R @ [(method, path H p, A (B (C (D handler))))]\<rparr>]\<rparr>)"
    using Handle_success[where rejects = rejects and mw = "[Some C, Some D]" and handler = handler,
        OF assms(2) wf_store_deref[OF assms(1,2)] assms(4,5)]
    by (simp add: own)
  then show ?thesis by (simp add: around_def)
qed

theorem Handle_order_witness:
  "wf_store example_store \<and>
   deref (hitches example_store) 1 = Inr \<lparr>router = 0, basePath = '''', middlewares = Slice 0 2\<rparr> \<and>
   middlewares_of example_store 1 = [Some (logging ''A''), Some (logging ''B'')] \<and>
   deref (routers example_store) 0 = Inr \<lparr>HandleMethodNotAllowed = False, routes = []\<rparr> \<and>
   \<not> rejects_duplicates \<lparr>HandleMethodNotAllowed = False, routes = []\<rparr> ''GET'' ''/items'' \<and>
   Handle rejects_duplicates 1 ''GET'' ''/items'' (terminal ''h'')
       [Some (logging ''C''), Some (logging ''D'')] example_store =
     Inr (example_store\<lparr>routers :=
       [\<lparr>HandleMethodNotAllowed = False,
         routes = [(''GET'', ''/items'',
           logging ''A'' (logging ''B'' (logging ''C'' (logging ''D'' (terminal ''h'')))))]\<rparr>]\<rparr>) \<and>
   logging ''A'' (logging ''B'' (logging ''C'' (logging ''D'' (terminal ''h'')))) () () [] =
     Returns [Enter ''A'', Enter ''B'', Enter ''C'', Enter ''D'', Handled ''h'',
              Leave ''D'', Leave ''C'', Leave ''B'', Leave ''A'']"
proof -
  let ?H = "\<lparr>router = 0, basePath = '''', middlewares = Slice 0 2\<rparr>"
  let ?R = "\<lparr>HandleMethodNotAllowed = False, routes = []\<rparr> :: (unit, unit, event list) httprouter"
  have 1: "wf_store example_store" by (rule wf_example_store)
  have 2: "deref (hitches example_store) 1 = Inr ?H"
    by (simp add: example_store_eq deref_def)
  have 3: "middlewares_of example_store 1 = [Some (logging ''A''), Some (logging ''B'')]"
    by (simp add: example_store_eq middlewares_of_def slice_elems_def)
  have 4: "deref (routers example_store) (router ?H) = Inr ?R"
    by (simp add: example_store_eq deref_def)
  have 5: "\<not> rejects_duplicates ?R ''GET'' (path ?H ''/items'')"
    by (simp add: rejects_duplicates_def)
  have p: "path ?H ''/items'' = ''/items''"
    by (simp add: path_def TrimSuffix_def HasSuffix_def HasPrefix_def)
  note t = Handle_order[where rejects = rejects_duplicates and handler = "terminal ''h''"
      and C = "logging ''C''" and D = "logging ''D''", OF 1 2 3 4 5]
  have 6: "Handle rejects_duplicates 1 ''GET'' ''/items'' (terminal ''h'')
       [Some (logging ''C''), Some (logging ''D'')] example_store =
     Inr (example_store\<lparr>routers :=
       [\<lparr>HandleMethodNotAllowed = False,
         routes = [(''GET'', ''/items'',
           logging ''A'' (logging ''B'' (logging ''C'' (logging ''D'' (terminal ''h'')))))]\<rparr>]\<rparr>)"
    using t[THEN conjunct1] by (simp add: p example_store_eq)
  have 7: "logging ''A'' (logging ''B'' (logging ''C'' (logging ''D'' (terminal ''h'')))) () () [] =
     Returns [Enter ''A'', Enter ''B'', Enter ''C'', Enter ''D'', Handled ''h'',
              Leave ''D'', Leave ''C'', Leave ''B'', Leave ''A'']"
    using t[THEN conjunct2, rule_format, OF logging_around logging_around logging_around
        logging_around, of "()" "()" "[]"
        "[Enter ''A'', Enter ''B'', Enter ''C'', Enter ''D'', Handled ''h'']"]
    by (simp add: terminal_def)
  from 1 2 3 4 5 6 7 show ?thesis by (simp add: rejects_duplicates_def)
qed

text \<open>
  Claim C2.  After \<^verbatim>\<open>child := parent.SubPath(x)\<close> and \<^verbatim>\<open>g := child.WithMiddleware(m...)\<close>,
  the parent object and its middleware list are as they were before, in length and
  contents; the child's list holds the parent's middleware, the list of \<open>g\<close> those
  followed by \<open>m\<close>.  None of this changes with any further operations of the facades
  (construction, derivation, registration, on the parent, on the child or on any other
  facade), whether they come between the two calls or after them: derivation copies the
  list into an array of its own.
\<close>

theorem derive_keeps_parent:
  assumes "wf_store st" and "SubPath parent x st = Inr (child, st1)" and "steps st1 st1'"
    and "WithMiddleware grow child m st1' = Inr (g, st2)" and "steps st2 st3"
  shows "hitches st2 ! parent = hitches st ! parent \<and>
         middlewares_of st2 parent = middlewares_of st parent \<and>
         length (middlewares_of st2 parent) = length (middlewares_of st parent) \<and>
         middlewares_of st2 child = middlewares_of st parent \<and>
         middlewares_of st2 g = middlewares_of st parent @ m \<and>
         hitches st3 ! parent = hitches st ! parent \<and>
         middlewares_of st3 parent = middlewares_of st parent \<and>
         middlewares_of st3 child = middlewares_of st parent \<and>
         middlewares_of st3 g = middlewares_of st parent @ m"
proof -
  from assms(2) obtain H where H: "deref (hitches st) parent = Inr H"
    by (auto simp: SubPath_def split: sum.splits)
  then have pl: "parent < length (hitches st)" by (simp add: deref_Inr)
  from SubPath_props[OF H wf_store_deref[OF assms(1) H], of x] assms(2)
  obtain N where c: "child = length (hitches st)" and h1: "hitches st1 = hitches st @ [N]"
    and e1: "slice_elems st1 (middlewares N) = slice_elems st (middlewares H)"
    by auto
  have cl: "child < length (hitches st1)" by (simp add: c h1)
  have c1: "middlewares_of st1 child = middlewares_of st parent"
    using e1 H by (simp add: middlewares_of_def h1 c deref_Inr)
  have s01: "steps st st1"
    unfolding steps_def using step_SubPath[OF assms(2)] by (rule r_into_rtranclp)
  have f1: "wf_store st1" "hitches st1 ! parent = hitches st ! parent"
    "middlewares_of st1 parent = middlewares_of st parent"
    using steps_frame[OF s01 assms(1)] pl by simp_all
  have pl1: "parent < length (hitches st1)" by (simp add: h1 pl less_SucI)
  have f1': "wf_store st1'" "length (hitches st1) \<le> length (hitches st1')"
    "hitches st1' ! parent = hitches st ! parent"
    "middlewares_of st1' parent = middlewares_of st parent"
    "hitches st1' ! child = hitches st1 ! child"
    "middlewares_of st1' child = middlewares_of st parent"
    using steps_frame[OF assms(3) f1(1)] pl1 cl f1(2,3) c1 by simp_all
  from assms(4) obtain F where F: "deref (hitches st1') child = Inr F"
    by (auto simp: WithMiddleware_def SubPath_def split: sum.splits)
  from WithMiddleware_result[OF F wf_store_deref[OF f1'(1) F], of grow m] assms(4)
  obtain M where g: "g = length (hitches st1')" and h2: "hitches st2 = hitches st1' @ [M]"
    and e2: "slice_elems st2 (middlewares M) = slice_elems st1' (middlewares F) @ m"
    by auto
  have g2: "middlewares_of st2 g = middlewares_of st parent @ m"
    using e2 F f1'(6) by (simp add: middlewares_of_def h2 g deref_Inr)
  have gl: "g < length (hitches st2)" by (simp add: g h2)
  have s12: "steps st1' st2"
    unfolding steps_def using step_WithMiddleware[OF assms(4)] by (rule r_into_rtranclp)
  have pl1': "parent < length (hitches st1')" "child < length (hitches st1')"
    using f1'(2) pl1 cl by simp_all
  have f2: "wf_store st2" "length (hitches st1') \<le> length (hitches st2)"
    "hitches st2 ! parent = hitches st ! parent"
    "middlewares_of st2 parent = middlewares_of st parent"
    "middlewares_of st2 child = middlewares_of st parent"
    using steps_frame[OF s12 f1'(1)] pl1' f1'(3,4,6) by simp_all
  have pl2: "parent < length (hitches st2)" "child < length (hitches st2)"
    using f2(2) pl1' by simp_all
  have f3: "hitches st3 ! parent = hitches st ! parent"
    "middlewares_of st3 parent = middlewares_of st parent"
    "middlewares_of st3 child = middlewares_of st parent"
    "middlewares_of st3 g = middlewares_of st parent @ m"
    using steps_frame[OF assms(5) f2(1)] pl2 gl f2(3,4,5) g2 by simp_all
  from f2(3,4,5) g2 f3 show ?thesis by simp
qed

theorem derive_keeps_parent_witness:
  "wf_store example_store \<and>
   SubPath 1 ''/api'' example_store = Inr (3, example_child) \<and>
   steps example_child example_child \<and>
   WithMiddleware grow_double 3 [Some (logging ''C'')] example_child = Inr (4, example_grandchild) \<and>
   steps example_grandchild example_later \<and>
   middlewares_of example_store 1 = [Some (logging ''A''), Some (logging ''B'')] \<and>
   hitches example_later ! 1 = hitches example_store ! 1 \<and>
   middlewares_of example_grandchild 1 = [Some (logging ''A''), Some (logging ''B'')] \<and>
   middlewares_of example_later 1 = [Some (logging ''A''), Some (logging ''B'')] \<and>
   middlewares_of example_later 3 = [Some (logging ''A''), Some (logging ''B'')] \<and>
   middlewares_of example_later 4 =
     [Some (logging ''A''), Some (logging ''B''), Some (logging ''C'')]"
proof -
  have 1: "wf_store example_store" by (rule wf_example_store)
  have 2: "SubPath 1 ''/api'' example_store = Inr (3, example_child)"
    by (simp add: example_child_eq example_store_eq eval_defs)
  have 3: "steps example_child example_child" by (simp add: steps_def)
  have 4: "WithMiddleware grow_double 3 [Some (logging ''C'')] example_child =
             Inr (4, example_grandchild)"
    by (simp add: example_grandchild_eq example_child_eq eval_defs)
  have 5: "steps example_grandchild example_later"
    unfolding steps_def using step_WithMiddleware[OF example_later_eq] by (rule r_into_rtranclp)
  have 6: "middlewares_of example_store 1 = [Some (logging ''A''), Some (logging ''B'')]"
    by (simp add: example_store_eq middlewares_of_def slice_elems_def)
  from derive_keeps_parent[OF 1 2 3 4 5] 1 2 3 4 5 6 show ?thesis by simp
qed

text \<open>
  Claim C3, as amended.  For a segment \<open>p\<close> that is not empty, \<^verbatim>\<open>path\<close> returns the base
  path without one trailing slash, followed by \<open>p\<close> with a leading slash (kept when \<open>p\<close> has
  one, added when it has none): the slash that opens the segment is never dropped.  The
  result has a double slash at the join point exactly when the base path ends in two
  slashes, so never for a base path that does not.  For the empty segment the result is
  the base path without one trailing slash.
\<close>

theorem path_join:
  "(p \<noteq> '''' \<longrightarrow>
      take (join_point h) (path h p) = trimTrailingSlash (basePath h) \<and>
      drop (join_point h) (path h p) = normalizeLeadingSlash p \<and>
      path h p ! join_point h = CHR ''/'' \<and>
      (double_slash_at (join_point h) (path h p) \<longleftrightarrow> HasSuffix (basePath h) ''//'')) \<and>
   (p = '''' \<longrightarrow> path h p = trimTrailingSlash (basePath h))"
proof -
  let ?b = "trimTrailingSlash (basePath h)"
  let ?q = "normalizeLeadingSlash p"
  have j: "join_point h = length ?b" by (simp add: join_point_def TrimSuffix_slash)
  have e: "path h p = ?b @ ?q" by (rule path_eq)
  have q: "p \<noteq> [] \<Longrightarrow> ?q \<noteq> [] \<and> ?q ! 0 = CHR ''/''"
    by (cases p) (auto simp: normalizeLeadingSlash_def)
  have d: "double_slash_at (length ?b) (?b @ ?q) \<longleftrightarrow> HasSuffix (basePath h) ''//''" if p: "p \<noteq> []"
  proof -
    have "double_slash_at (length ?b) (?b @ ?q) \<longleftrightarrow> ?b \<noteq> [] \<and> last ?b = CHR ''/''"
      using q[OF p] by (auto simp: double_slash_at_def nth_append last_conv_nth)
    also have "\<dots> \<longleftrightarrow> HasSuffix ?b ''/''" by (simp add: HasSuffix_slash)
    also have "\<dots> \<longleftrightarrow> HasSuffix (basePath h) ''//''"
      unfolding HasSuffix_2slash[of "basePath h"] by (auto simp: trimTrailingSlash_def HasSuffix_slash)
    finally show ?thesis .
  qed
  show ?thesis using q d e by (auto simp: j normalizeLeadingSlash_def nth_append)
qed

theorem path_join_witness:
  "''/users'' \<noteq> '''' \<and>
   take 3 (path \<lparr>router = 0, basePath = ''/v1/'', middlewares = NilSlice\<rparr> ''/users'') = ''/v1'' \<and>
   drop 3 (path \<lparr>router = 0, basePath = ''/v1/'', middlewares = NilSlice\<rparr> ''/users'') = ''/users'' \<and>
   path \<lparr>router = 0, basePath = ''/v1/'', middlewares = NilSlice\<rparr> ''/users'' ! 3 = CHR ''/'' \<and>
   \<not> HasSuffix ''/v1/'' ''//'' \<and>
   \<not> double_slash_at 3 (path \<lparr>router = 0, basePath = ''/v1/'', middlewares = NilSlice\<rparr> ''/users'') \<and>
   path \<lparr>router = 0, basePath = ''/v1/'', middlewares = NilSlice\<rparr> '''' = ''/v1''"
  using path_join[of "''/users''" "\<lparr>router = 0, basePath = ''/v1/'', middlewares = NilSlice\<rparr>"]
    path_join[of "''''" "\<lparr>router = 0, basePath = ''/v1/'', middlewares = NilSlice\<rparr>"]
  by (simp add: join_point_def TrimSuffix_def HasSuffix_def trimTrailingSlash_def
      normalizeLeadingSlash_def numeral_3_eq_3)

text \<open>
  The claim as the specification states it, for every base path, fails: \<^verbatim>\<open>TrimSuffix\<close>
  removes one slash only.  The base path \<^verbatim>\<open>/v1//\<close> is what
  \<^verbatim>\<open>New().SubPath("/v1//")\<close> has, and composing it with \<^verbatim>\<open>users\<close> puts two slashes at
  the join point.
\<close>

theorem path_double_slash_counterexample:
  "SubPath 0 ''/v1//'' (snd (New (empty_store :: (unit, unit, unit) store))) =
     Inr (1, \<lparr>routers = [\<lparr>HandleMethodNotAllowed = False, routes = []\<rparr>],
              arrays = [],
              hitches = [\<lparr>router = 0, basePath = '''', middlewares = NilSlice\<rparr>,
                         \<lparr>router = 0, basePath = ''/v1//'', middlewares = NilSlice\<rparr>]\<rparr>) \<and>
   path \<lparr>router = 0, basePath = ''/v1//'', middlewares = NilSlice\<rparr> ''users'' = ''/v1//users'' \<and>
   join_point \<lparr>router = 0, basePath = ''/v1//'', middlewares = NilSlice\<rparr> = 4 \<and>
   double_slash_at 4 ''/v1//users''"
  by (simp add: eval_defs join_point_def double_slash_at_def)

text \<open>
  Claim C4, as amended.  \<^verbatim>\<open>path(p)\<close> is the base path without one trailing slash followed
  by the segment with its leading slash.  For the empty segment it is the base path
  without one trailing slash, which is the base path itself exactly when that does not
  end in a slash; a \<^verbatim>\<open>Handle\<close> with the empty path that the router accepts registers the
  route at that path, with no trailing slash added.
\<close>

theorem path_composition:
  "path H p = trimTrailingSlash (basePath H) @ normalizeLeadingSlash p \<and>
   path H '''' = trimTrailingSlash (basePath H) \<and>
   (\<not> HasSuffix (basePath H) ''/'' \<longrightarrow> path H '''' = basePath H) \<and>
   (deref (hitches st) h = Inr H \<longrightarrow>
    Handle rejects h method '''' handler mw st = Inr st' \<longrightarrow>
    (\<exists>handler'. routers st' = (routers st)[router H :=
        (routers st ! router H)\<lparr>routes := routes (routers st ! router H) @
           [(method, trimTrailingSlash (basePath H), handler')]\<rparr>]))"
proof -
  have e: "path H '''' = trimTrailingSlash (basePath H)"
    by (simp add: path_eq normalizeLeadingSlash_def)
  have n: "\<not> HasSuffix (basePath H) ''/'' \<Longrightarrow> path H '''' = basePath H"
    by (auto simp add: e trimTrailingSlash_def HasSuffix_slash)
  have r: "\<exists>handler'. routers st' = (routers st)[router H :=
        (routers st ! router H)\<lparr>routes := routes (routers st ! router H) @
           [(method, trimTrailingSlash (basePath H), handler')]\<rparr>]"
    if "deref (hitches st) h = Inr H" and "Handle rejects h method '''' handler mw st = Inr st'"
    using Handle_result[OF that(2)] that(1) by (auto simp: e deref_Inr)
  from path_eq[of H p] e n r show ?thesis by blast
qed

theorem path_composition_witness:
  "path \<lparr>router = 0, basePath = ''/api'', middlewares = Slice 2 2\<rparr> ''items'' = ''/api/items'' \<and>
   path \<lparr>router = 0, basePath = ''/api'', middlewares = Slice 2 2\<rparr> '''' = ''/api'' \<and>
   \<not> HasSuffix ''/api'' ''/'' \<and>
   deref (hitches example_child) 3 = Inr \<lparr>router = 0, basePath = ''/api'', middlewares = Slice 2 2\<rparr> \<and>
   Handle rejects_duplicates 3 ''GET'' '''' (terminal ''h'') [] example_child =
     Inr (example_child\<lparr>routers := [\<lparr>HandleMethodNotAllowed = False,
            routes = [(''GET'', ''/api'', logging ''A'' (logging ''B'' (terminal ''h'')))]\<rparr>]\<rparr>) \<and>
   (\<exists>handler'. [\<lparr>HandleMethodNotAllowed = False,
            routes = [(''GET'', ''/api'', logging ''A'' (logging ''B'' (terminal ''h'')))]\<rparr>] =
      [\<lparr>HandleMethodNotAllowed = False, routes = [(''GET'', ''/api'', handler')]\<rparr>])"
proof -
  let ?H = "\<lparr>router = 0, basePath = ''/api'', middlewares = Slice 2 2\<rparr>"
  let ?st' = "example_child\<lparr>routers := [\<lparr>HandleMethodNotAllowed = False,
            routes = [(''GET'', ''/api'', logging ''A'' (logging ''B'' (terminal ''h'')))]\<rparr>]\<rparr>"
  have 1: "\<not> HasSuffix ''/api'' ''/''" by (simp add: HasSuffix_def)
  have 2: "deref (hitches example_child) 3 = Inr ?H"
    by (simp add: example_child_eq deref_def)
  have 3: "Handle rejects_duplicates 3 ''GET'' '''' (terminal ''h'') [] example_child = Inr ?st'"
    by (simp add: example_child_eq eval_defs numeral_2_eq_2)
  from path_composition[of ?H "''items''" example_child 3 rejects_duplicates "''GET''"
      "terminal ''h''" "[]" ?st'] 1 2 3
  show ?thesis
    by (simp add: trimTrailingSlash_def normalizeLeadingSlash_def example_child_eq)
qed

text \<open>
  The claim as the specification states it fails for a base path that ends in a slash:
  \<^verbatim>\<open>New().SubPath("/v1/")\<close> has the base path \<^verbatim>\<open>/v1/\<close>, for which \<^verbatim>\<open>path("")\<close> is
  \<^verbatim>\<open>/v1\<close>, and \<^verbatim>\<open>Handle\<close> with the empty path registers at \<^verbatim>\<open>/v1\<close>.
\<close>

theorem path_empty_counterexample:
  "SubPath 0 ''/v1/'' (snd (New (empty_store :: (unit, unit, event list) store))) =
     Inr (1, \<lparr>routers = [\<lparr>HandleMethodNotAllowed = False, routes = []\<rparr>],
              arrays = [],
              hitches = [\<lparr>router = 0, basePath = '''', middlewares = NilSlice\<rparr>,
                         \<lparr>router = 0, basePath = ''/v1/'', middlewares = NilSlice\<rparr>]\<rparr>) \<and>
   path \<lparr>router = 0, basePath = ''/v1/'', middlewares = NilSlice\<rparr> '''' = ''/v1'' \<and>
   path \<lparr>router = 0, basePath = ''/v1/'', middlewares = NilSlice\<rparr> '''' \<noteq>
     basePath \<lparr>router = 0, basePath = ''/v1/'', middlewares = NilSlice\<rparr> \<and>
   Handle rejects_duplicates 1 ''GET'' ''''
     (terminal ''h'' :: (unit, unit, event list) Handler) []
     \<lparr>routers = [\<lparr>HandleMethodNotAllowed = False, routes = []\<rparr>],
      arrays = [],
      hitches = [\<lparr>router = 0, basePath = '''', middlewares = NilSlice\<rparr>,
                 \<lparr>router = 0, basePath = ''/v1/'', middlewares = NilSlice\<rparr>]\<rparr> =
     Inr \<lparr>routers = [\<lparr>HandleMethodNotAllowed = False,
                       routes = [(''GET'', ''/v1'', terminal ''h'')]\<rparr>],
          arrays = [],
          hitches = [\<lparr>router = 0, basePath = '''', middlewares = NilSlice\<rparr>,
                     \<lparr>router = 0, basePath = ''/v1/'', middlewares = NilSlice\<rparr>]\<rparr>"
  by (simp add: eval_defs)

text \<open>
  Claim C5.  \<^verbatim>\<open>h.SubPath(p)\<close> on a live facade returns a new facade (a fresh address; the
  facades there before stay), with the router pointer of \<open>h\<close>, the base path
  \<^verbatim>\<open>h.path(p)\<close> and a middleware list with the contents of the list of \<open>h\<close>, held in a
  backing array allocated by the call (none when the list is empty), so it shares no
  array with any facade there before.  From the base path \<^verbatim>\<open>/v1/\<close>, \<^verbatim>\<open>SubPath("/users")\<close>
  gives the base path \<^verbatim>\<open>/v1/users\<close>.
\<close>

theorem SubPath_derives:
  assumes "wf_store st" and "deref (hitches st) h = Inr H"
  shows "\<exists>st' N. SubPath h p st = Inr (length (hitches st), st') \<and>
           hitches st' = hitches st @ [N] \<and>
           routers st' = routers st \<and> grows (arrays st) (arrays st') \<and>
           router N = router H \<and>
           basePath N = path H p \<and>
           (basePath H = ''/v1/'' \<and> p = ''/users'' \<longrightarrow> basePath N = ''/v1/users'') \<and>
           slice_elems st' (middlewares N) = middlewares_of st h \<and>
           middlewares_of st' h = middlewares_of st h \<and>
           (case middlewares N of NilSlice \<Rightarrow> True | Slice a n \<Rightarrow> length (arrays st) \<le> a)"
proof -
  from SubPath_props[OF assms(2) wf_store_deref[OF assms], of p]
  obtain st' N where r: "SubPath h p st = Inr (length (hitches st), st')"
    "routers st' = routers st" "grows (arrays st) (arrays st')"
    "hitches st' = hitches st @ [N]" "router N = router H" "basePath N = path H p"
    "slice_elems st' (middlewares N) = slice_elems st (middlewares H)"
    "case middlewares N of NilSlice \<Rightarrow> True | Slice a n \<Rightarrow> length (arrays st) \<le> a"
    by blast
  have hl: "h < length (hitches st)" and HH: "H = hitches st ! h"
    using assms(2) by (simp_all add: deref_Inr)
  have f: "middlewares_of st' h = middlewares_of st h"
    using frame_extend[OF assms(1) r(3) r(4) hl] by simp
  have e: "slice_elems st' (middlewares N) = middlewares_of st h"
    using r(7) by (simp add: middlewares_of_def HH)
  have x: "basePath H = ''/v1/'' \<and> p = ''/users'' \<longrightarrow> basePath N = ''/v1/users''"
    by (simp add: r(6) path_def TrimSuffix_def HasSuffix_def HasPrefix_def)
  from r(1,2,3,4,5,6,8) f e x show ?thesis by blast
qed

theorem SubPath_derives_witness:
  "wf_store example_store \<and>
   deref (hitches example_store) 2 = Inr \<lparr>router = 0, basePath = ''/v1/'', middlewares = Slice 1 2\<rparr> \<and>
   SubPath 2 ''/users'' example_store =
     Inr (3, example_store\<lparr>
       arrays := arrays example_store @ [[Some (logging ''A''), Some (logging ''B'')]],
       hitches := hitches example_store @
         [\<lparr>router = 0, basePath = ''/v1/users'', middlewares = Slice 2 2\<rparr>]\<rparr>) \<and>
   length (arrays example_store) = 2 \<and>
   middlewares_of example_store 2 = [Some (logging ''A''), Some (logging ''B'')]"
proof -
  have 1: "wf_store example_store" by (rule wf_example_store)
  have 2: "deref (hitches example_store) 2 =
      Inr \<lparr>router = 0, basePath = ''/v1/'', middlewares = Slice 1 2\<rparr>"
    by (simp add: example_store_eq deref_def)
  have 3: "SubPath 2 ''/users'' example_store =
     Inr (3, example_store\<lparr>
       arrays := arrays example_store @ [[Some (logging ''A''), Some (logging ''B'')]],
       hitches := hitches example_store @
         [\<lparr>router = 0, basePath = ''/v1/users'', middlewares = Slice 2 2\<rparr>]\<rparr>)"
    by (simp add: example_store_eq eval_defs)
  have 4: "length (arrays example_store) = 2"
    "middlewares_of example_store 2 = [Some (logging ''A''), Some (logging ''B'')]"
    by (simp_all add: example_store_eq middlewares_of_def slice_elems_def)
  from SubPath_derives[OF 1 2, of "''/users''"] 1 2 3 4 show ?thesis by simp
qed

text \<open>
  Claim C6.  \<^verbatim>\<open>WithHandlerMiddleware(handler)\<close> derives a facade whose middleware list is
  that of the receiver followed by one middleware.  Wrapped around \<open>next\<close> and run on
  \<open>(w, req)\<close>, this middleware first runs \<open>handler\<close> on \<open>(w, req)\<close>; when that returns,
  leaving the world \<open>s'\<close>, it runs \<open>next\<close> on the same \<open>(w, req)\<close> from \<open>s'\<close>, so every effect
  of \<open>handler\<close> precedes \<open>next\<close>; when \<open>handler\<close> panics, \<open>next\<close> is not run.
\<close>

theorem WithHandlerMiddleware_runs_first:
  assumes "wf_store st" and "deref (hitches st) h = Inr H"
  shows "\<exists>st' mw. WithHandlerMiddleware grow h handler st = Inr (length (hitches st), st') \<and>
           middlewares_of st' (length (hitches st)) = middlewares_of st h @ [Some mw] \<and>
           (\<forall>next w req s s'.
              (handler w req s = Returns s' \<longrightarrow> mw next w req s = next w req s') \<and>
              (handler w req s = Panics s' \<longrightarrow> mw next w req s = Panics s'))"
proof -
  from WithMiddleware_result[OF assms(2) wf_store_deref[OF assms],
      of grow "[Some (handler_middleware handler)]"]
  obtain st2 N where r:
    "WithMiddleware grow h [Some (handler_middleware handler)] st = Inr (length (hitches st), st2)"
    "hitches st2 = hitches st @ [N]"
    "slice_elems st2 (middlewares N) =
       slice_elems st (middlewares H) @ [Some (handler_middleware handler)]"
    by blast
  have "middlewares_of st2 (length (hitches st)) =
          middlewares_of st h @ [Some (handler_middleware handler)]"
    using r(2,3) assms(2) by (simp add: middlewares_of_def deref_Inr)
  moreover have "\<forall>next w req s s'.
      (handler w req s = Returns s' \<longrightarrow> handler_middleware handler next w req s = next w req s') \<and>
      (handler w req s = Panics s' \<longrightarrow> handler_middleware handler next w req s = Panics s')"
    by (simp add: handler_middleware_def)
  ultimately show ?thesis
    using r(1) unfolding WithHandlerMiddleware_def by blast
qed

theorem WithHandlerMiddleware_runs_first_witness:
  "wf_store example_store \<and>
   deref (hitches example_store) 0 = Inr \<lparr>router = 0, basePath = '''', middlewares = NilSlice\<rparr> \<and>
   WithHandlerMiddleware grow_double 0 (terminal ''H'') example_store =
     Inr (3, example_store\<lparr>
       arrays := arrays example_store @ [[Some (handler_middleware (terminal ''H''))]],
       hitches := hitches example_store @
         [\<lparr>router = 0, basePath = '''', middlewares = Slice 2 1\<rparr>]\<rparr>) \<and>
   terminal ''H'' () () [] = Returns [Handled ''H''] \<and>
   handler_middleware (terminal ''H'') (terminal ''next'') () () [] =
     Returns [Handled ''H'', Handled ''next'']"
proof -
  have 1: "wf_store example_store" by (rule wf_example_store)
  have 2: "deref (hitches example_store) 0 =
      Inr \<lparr>router = 0, basePath = '''', middlewares = NilSlice\<rparr>"
    by (simp add: example_store_eq deref_def)
  have 3: "WithHandlerMiddleware grow_double 0 (terminal ''H'') example_store =
     Inr (3, example_store\<lparr>
       arrays := arrays example_store @ [[Some (handler_middleware (terminal ''H''))]],
       hitches := hitches example_store @
         [\<lparr>router = 0, basePath = '''', middlewares = Slice 2 1\<rparr>]\<rparr>)"
    by (simp add: WithHandlerMiddleware_def example_store_eq eval_defs)
  have 4: "terminal ''H'' () () [] = Returns [Handled ''H'']"
    by (simp add: terminal_def)
  from WithHandlerMiddleware_runs_first[OF 1 2, of grow_double "terminal ''H''"]
  obtain st' mw where r:
    "WithHandlerMiddleware grow_double 0 (terminal ''H'') example_store =
       Inr (length (hitches example_store), st')"
    "middlewares_of st' (length (hitches example_store)) =
       middlewares_of example_store 0 @ [Some mw]"
    "mw (terminal ''next'') () () [] = terminal ''next'' () () [Handled ''H'']"
    using 4 by blast
  have "mw = handler_middleware (terminal ''H'')"
    using r(1,2) unfolding 3
    by (auto simp add: example_store_eq middlewares_of_def slice_elems_def numeral_3_eq_3)
  with r(3) have 5: "handler_middleware (terminal ''H'') (terminal ''next'') () () [] =
     Returns [Handled ''H'', Handled ''next'']"
    by (simp add: terminal_def)
  from 1 2 3 4 5 show ?thesis by simp
qed

text \<open>
  Claim C7, as amended.  \<^verbatim>\<open>h.WithMiddleware(mw...)\<close> returns the facade that
  \<^verbatim>\<open>h.SubPath("")\<close> returns (the same new address, router pointer and base path), with
  \<open>mw\<close> appended in argument order to the copy of the middleware list of \<open>h\<close>.  The base path
  of the new facade is that of \<open>h\<close> without one trailing slash, hence the same base path
  whenever that of \<open>h\<close> does not end in a slash.  The receiver is not changed: neither
  the object nor the contents of its middleware list.
\<close>

theorem WithMiddleware_refines:
  assumes "wf_store st" and "deref (hitches st) h = Inr H"
  shows "\<exists>st1 st2 N1 N2.
           SubPath h '''' st = Inr (length (hitches st), st1) \<and>
           WithMiddleware grow h mw st = Inr (length (hitches st), st2) \<and>
           hitches st1 = hitches st @ [N1] \<and> hitches st2 = hitches st @ [N2] \<and>
           routers st1 = routers st \<and> routers st2 = routers st \<and>
           router N1 = router H \<and> router N2 = router H \<and>
           basePath N1 = trimTrailingSlash (basePath H) \<and>
           basePath N2 = trimTrailingSlash (basePath H) \<and>
           (\<not> HasSuffix (basePath H) ''/'' \<longrightarrow> basePath N2 = basePath H) \<and>
           slice_elems st1 (middlewares N1) = middlewares_of st h \<and>
           slice_elems st2 (middlewares N2) = middlewares_of st h @ mw \<and>
           hitches st2 ! h = H \<and>
           middlewares_of st2 h = middlewares_of st h"
proof -
  note wfH = wf_store_deref[OF assms]
  have hl: "h < length (hitches st)" and HH: "H = hitches st ! h"
    using assms(2) by (simp_all add: deref_Inr)
  have e: "path H '''' = trimTrailingSlash (basePath H)"
    by (simp add: path_eq normalizeLeadingSlash_def)
  have n: "\<not> HasSuffix (basePath H) ''/'' \<Longrightarrow> trimTrailingSlash (basePath H) = basePath H"
    by (auto simp add: trimTrailingSlash_def HasSuffix_slash)
  from SubPath_props[OF assms(2) wfH, of "''''"]
  obtain st1 N1 where a: "SubPath h '''' st = Inr (length (hitches st), st1)"
    "routers st1 = routers st" "hitches st1 = hitches st @ [N1]" "router N1 = router H"
    "basePath N1 = path H ''''"
    "slice_elems st1 (middlewares N1) = slice_elems st (middlewares H)"
    by blast
  from WithMiddleware_result[OF assms(2) wfH, of grow mw]
  obtain st2 N2 where b: "WithMiddleware grow h mw st = Inr (length (hitches st), st2)"
    "routers st2 = routers st" "grows (arrays st) (arrays st2)"
    "hitches st2 = hitches st @ [N2]" "router N2 = router H" "basePath N2 = path H ''''"
    "slice_elems st2 (middlewares N2) = slice_elems st (middlewares H) @ mw"
    by blast
  have f: "hitches st2 ! h = H" "middlewares_of st2 h = middlewares_of st h"
    using frame_extend[OF assms(1) b(3) b(4) hl] HH by simp_all
  have m: "slice_elems st (middlewares H) = middlewares_of st h"
    by (simp add: middlewares_of_def HH)
  have n2: "\<not> HasSuffix (basePath H) ''/'' \<longrightarrow> basePath N2 = basePath H"
    using n b(6) e by simp
  from a b(1,2,4,5,6,7) f n2 show ?thesis
    unfolding e m
    by (intro exI[of _ st1] exI[of _ st2] exI[of _ N1] exI[of _ N2]) simp
qed

theorem WithMiddleware_refines_witness:
  "wf_store example_store \<and>
   deref (hitches example_store) 1 = Inr \<lparr>router = 0, basePath = '''', middlewares = Slice 0 2\<rparr> \<and>
   \<not> HasSuffix '''' ''/'' \<and>
   SubPath 1 '''' example_store =
     Inr (3, example_store\<lparr>
       arrays := arrays example_store @ [[Some (logging ''A''), Some (logging ''B'')]],
       hitches := hitches example_store @
         [\<lparr>router = 0, basePath = '''', middlewares = Slice 2 2\<rparr>]\<rparr>) \<and>
   WithMiddleware grow_double 1 [Some (logging ''C''), Some (logging ''D'')] example_store =
     Inr (3, example_store\<lparr>
       arrays := arrays example_store @ [[Some (logging ''A''), Some (logging ''B'')],
         [Some (logging ''A''), Some (logging ''B''), Some (logging ''C''), Some (logging ''D'')]],
       hitches := hitches example_store @
         [\<lparr>router = 0, basePath = '''', middlewares = Slice 3 4\<rparr>]\<rparr>) \<and>
   middlewares_of example_store 1 = [Some (logging ''A''), Some (logging ''B'')]"
proof -
  have 1: "wf_store example_store" by (rule wf_example_store)
  have 2: "deref (hitches example_store) 1 =
      Inr \<lparr>router = 0, basePath = '''', middlewares = Slice 0 2\<rparr>"
    by (simp add: example_store_eq deref_def)
  have 3: "\<not> HasSuffix '''' ''/''" by (simp add: HasSuffix_def)
  have 4: "SubPath 1 '''' example_store =
     Inr (3, example_store\<lparr>
       arrays := arrays example_store @ [[Some (logging ''A''), Some (logging ''B'')]],
       hitches := hitches example_store @
         [\<lparr>router = 0, basePath = '''', middlewares = Slice 2 2\<rparr>]\<rparr>)"
    by (simp add: example_store_eq eval_defs)
  have 5: "WithMiddleware grow_double 1 [Some (logging ''C''), Some (logging ''D'')] example_store =
     Inr (3, example_store\<lparr>
       arrays := arrays example_store @ [[Some (logging ''A''), Some (logging ''B'')],
         [Some (logging ''A''), Some (logging ''B''), Some (logging ''C''), Some (logging ''D'')]],
       hitches := hitches example_store @
         [\<lparr>router = 0, basePath = '''', middlewares = Slice 3 4\<rparr>]\<rparr>)"
    by (simp add: example_store_eq eval_defs)
  have 6: "middlewares_of example_store 1 = [Some (logging ''A''), Some (logging ''B'')]"
    by (simp add: example_store_eq middlewares_of_def slice_elems_def)
  from WithMiddleware_refines[OF 1 2, of grow_double "[Some (logging ''C''), Some (logging ''D'')]"]
    1 2 3 4 5 6
  show ?thesis by simp
qed

text \<open>
  The claim as the specification states it places the derived facade at the same base
  path.  That fails for a receiver whose base path ends in a slash: the facade
  \<^verbatim>\<open>v\<close> of the example has the base path \<^verbatim>\<open>/v1/\<close>, and \<^verbatim>\<open>v.WithMiddleware()\<close> has
  \<^verbatim>\<open>/v1\<close>.
\<close>

theorem WithMiddleware_base_counterexample:
  "basePath (hitches example_store ! 2) = ''/v1/'' \<and>
   WithMiddleware grow_double 2 [] example_store =
     Inr (3, example_store\<lparr>
       arrays := arrays example_store @ [[Some (logging ''A''), Some (logging ''B'')]],
       hitches := hitches example_store @
         [\<lparr>router = 0, basePath = ''/v1'', middlewares = Slice 2 2\<rparr>]\<rparr>) \<and>
   basePath \<lparr>router = 0, basePath = ''/v1'', middlewares = Slice 2 2\<rparr> \<noteq>
     basePath (hitches example_store ! 2)"
  by (simp add: example_store_eq eval_defs)

text \<open>
  Claim C8.  \<^verbatim>\<open>New\<close> takes no option.  It allocates a router that was not in the store
  before, with no route and with \<^verbatim>\<open>HandleMethodNotAllowed\<close> switched off, and a root facade
  on it with the empty base path and no middleware.  Whatever operations of the facades
  follow, the flag of that router stays off, and the dispatch on it answers "not found"
  whenever the (method, path) pair of the request is not registered, also when the path
  is registered under another method.
\<close>

theorem New_router:
  assumes "New st = (h, st1)" and "steps st1 st2"
  shows "h = length (hitches st) \<and>
         hitches st1 = hitches st @
           [\<lparr>router = length (routers st), basePath = '''', middlewares = NilSlice\<rparr>] \<and>
         routers st1 = routers st @ [\<lparr>HandleMethodNotAllowed = False, routes = []\<rparr>] \<and>
         arrays st1 = arrays st \<and>
         length (routers st) < length (routers st2) \<and>
         \<not> HandleMethodNotAllowed (routers st2 ! length (routers st)) \<and>
         (\<forall>w m p req s.
            find (\<lambda>(m', q, hd). m' = m \<and> q = p) (routes (routers st2 ! length (routers st))) = None \<longrightarrow>
            ServeHTTP (routers st2 ! length (routers st)) w m p req s = NotFound)"
proof -
  have 1: "h = length (hitches st)"
    and 2: "hitches st1 = hitches st @
           [\<lparr>router = length (routers st), basePath = '''', middlewares = NilSlice\<rparr>]"
    and 3: "routers st1 = routers st @ [\<lparr>HandleMethodNotAllowed = False, routes = []\<rparr>]"
    and 4: "arrays st1 = arrays st"
    using assms(1) by (auto simp: New_def Let_def httprouter_New_def)
  have 5: "length (routers st) < length (routers st2)"
    and 6: "\<not> HandleMethodNotAllowed (routers st2 ! length (routers st))"
    using steps_flags[OF assms(2)] by (auto simp: 3)
  have 7: "ServeHTTP (routers st2 ! length (routers st)) w m p req s = NotFound"
    if "find (\<lambda>(m', q, hd). m' = m \<and> q = p) (routes (routers st2 ! length (routers st))) = None"
    for w m p req s
    using that 6 by (simp add: ServeHTTP_def)
  from 1 2 3 4 5 6 7 show ?thesis by blast
qed

theorem New_router_witness:
  "New (empty_store :: (unit, unit, event list) store) =
     (0, \<lparr>routers = [\<lparr>HandleMethodNotAllowed = False, routes = []\<rparr>], arrays = [],
          hitches = [\<lparr>router = 0, basePath = '''', middlewares = NilSlice\<rparr>]\<rparr>) \<and>
   steps
     (\<lparr>routers = [\<lparr>HandleMethodNotAllowed = False, routes = []\<rparr>], arrays = [],
       hitches = [\<lparr>router = 0, basePath = '''', middlewares = NilSlice\<rparr>]\<rparr>
      :: (unit, unit, event list) store)
     \<lparr>routers = [\<lparr>HandleMethodNotAllowed = False,
                   routes = [(''GET'', ''/items'', terminal ''h'')]\<rparr>],
      arrays = [],
      hitches = [\<lparr>router = 0, basePath = '''', middlewares = NilSlice\<rparr>]\<rparr> \<and>
   find (\<lambda>(m', q, hd). m' = ''POST'' \<and> q = ''/items'')
     [(''GET'', ''/items'', terminal ''h'' :: (unit, unit, event list) Handler)] = None \<and>
   ServeHTTP \<lparr>HandleMethodNotAllowed = False, routes = [(''GET'', ''/items'', terminal ''h'')]\<rparr>
       () ''POST'' ''/items'' () [] = NotFound \<and>
   ServeHTTP \<lparr>HandleMethodNotAllowed = False, routes = [(''GET'', ''/items'', terminal ''h'')]\<rparr>
       () ''GET'' ''/items'' () [] = Served (Returns [Handled ''h''])"
proof -
  let ?st1 = "\<lparr>routers = [\<lparr>HandleMethodNotAllowed = False, routes = []\<rparr>], arrays = [],
          hitches = [\<lparr>router = 0, basePath = '''', middlewares = NilSlice\<rparr>]\<rparr>
          :: (unit, unit, event list) store"
  let ?st2 = "\<lparr>routers = [\<lparr>HandleMethodNotAllowed = False,
                       routes = [(''GET'', ''/items'', terminal ''h'')]\<rparr>],
          arrays = [],
          hitches = [\<lparr>router = 0, basePath = '''', middlewares = NilSlice\<rparr>]\<rparr>
          :: (unit, unit, event list) store"
  have 1: "New empty_store = (0, ?st1)" by (simp add: eval_defs)
  have h: "Handle rejects_duplicates 0 ''GET'' ''/items'' (terminal ''h'') [] ?st1 = Inr ?st2"
    by (simp add: eval_defs)
  have 2: "steps ?st1 ?st2"
    unfolding steps_def using step_Handle[OF h] by (rule r_into_rtranclp)
  have 3: "find (\<lambda>(m', q, hd). m' = ''POST'' \<and> q = ''/items'')
     [(''GET'', ''/items'', terminal ''h'' :: (unit, unit, event list) Handler)] = None"
    by simp
  from New_router[OF 1 2, THEN conjunct2, THEN conjunct2, THEN conjunct2, THEN conjunct2,
      THEN conjunct2, THEN conjunct2, rule_format, of "''POST''" "''/items''" "()" "()" "[]"] 3
  have 4: "ServeHTTP \<lparr>HandleMethodNotAllowed = False,
       routes = [(''GET'', ''/items'', terminal ''h'')]\<rparr> () ''POST'' ''/items'' () [] = NotFound"
    by (simp add: empty_store_def)
  have 5: "ServeHTTP \<lparr>HandleMethodNotAllowed = False,
       routes = [(''GET'', ''/items'', terminal ''h'')]\<rparr> () ''GET'' ''/items'' () [] =
       Served (Returns [Handled ''h''])"
    by (simp add: ServeHTTP_def terminal_def)
  show ?thesis by (intro conjI 1 2 3 4 5)
qed

text \<open>
  Claim C9.  On a request (a pointer that is not nil) \<^verbatim>\<open>Params\<close> returns a value and never
  panics: the empty collection when the context of the request holds no bindings, and
  exactly the bindings the dispatch attached otherwise, such as the pair of \<^verbatim>\<open>id\<close> and
  \<^verbatim>\<open>42\<close>.
\<close>

theorem Params_total:
  "(\<exists>ps. Params (Some r) = Inr ps) \<and>
   (Request_Context r ParamsKey = None \<longrightarrow> Params (Some r) = Inr []) \<and>
   (ctx r = None \<longrightarrow> Params (Some r) = Inr []) \<and>
   Params (Some (attach_params ps r)) = Inr ps \<and>
   Params (Some (attach_params [(''id'', ''42'')] r)) = Inr [(''id'', ''42'')]"
  by (simp add: Params_def ParamsFromContext_def Request_Context_def attach_params_def)

theorem Params_total_witness:
  "ctx \<lparr>ctx = None\<rparr> = None \<and>
   Request_Context \<lparr>ctx = None\<rparr> ParamsKey = None \<and>
   Params (Some \<lparr>ctx = None\<rparr>) = Inr [] \<and>
   Params (Some (attach_params [(''id'', ''42'')] \<lparr>ctx = None\<rparr>)) = Inr [(''id'', ''42'')]"
  using Params_total[of "\<lparr>ctx = None\<rparr>" "[(''id'', ''42'')]"]
  by (simp add: Request_Context_def)

text \<open>
  Claim C10.  A registration that returns, by \<^verbatim>\<open>Handle\<close> or by any of the forwarding
  forms, leaves every facade object and every backing array as it was, hence the base
  path and the middleware list of every facade; in the store only the router of the
  facade changes, by the one route appended to its table.  Each forwarding form is
  \<^verbatim>\<open>Handle\<close> with the method fixed.
\<close>

theorem registration_frame:
  assumes "reg \<in> {Handle rejects h method, HandleFunc rejects h method, GET rejects h,
                   PUT rejects h, POST rejects h, PATCH rejects h, DELETE rejects h,
                   OPTIONS rejects h}"
    and "reg p handler mw st = Inr st'"
  shows "hitches st' = hitches st \<and> arrays st' = arrays st \<and>
         (\<forall>f. middlewares_of st' f = middlewares_of st f) \<and>
         (\<exists>H R m handler'.
            deref (hitches st) h = Inr H \<and> deref (routers st) (router H) = Inr R \<and>
            routers st' = (routers st)[router H :=
               R\<lparr>routes := routes R @ [(m, path H p, handler')]\<rparr>]) \<and>
         GET rejects h p handler mw st = Handle rejects h ''GET'' p handler mw st \<and>
         PUT rejects h p handler mw st = Handle rejects h ''PUT'' p handler mw st \<and>
         POST rejects h p handler mw st = Handle rejects h ''POST'' p handler mw st \<and>
         PATCH rejects h p handler mw st = Handle rejects h ''PATCH'' p handler mw st \<and>
         DELETE rejects h p handler mw st = Handle rejects h ''DELETE'' p handler mw st \<and>
         OPTIONS rejects h p handler mw st = Handle rejects h ''OPTIONS'' p handler mw st \<and>
         HandleFunc rejects h method p handler mw st = Handle rejects h method p handler mw st"
proof -
  from assms obtain m where "Handle rejects h m p handler mw st = Inr st'"
    by (auto simp: HandleFunc_def GET_def PUT_def POST_def PATCH_def DELETE_def OPTIONS_def)
  from Handle_result[OF this] obtain H R handler' where
    H: "deref (hitches st) h = Inr H" and R: "deref (routers st) (router H) = Inr R" and
    s: "st' = st\<lparr>routers := (routers st)[router H :=
                      R\<lparr>routes := routes R @ [(m, path H p, handler')]\<rparr>]\<rparr>"
    by blast
  have 1: "hitches st' = hitches st" "arrays st' = arrays st"
    "\<forall>f. middlewares_of st' f = middlewares_of st f"
    by (simp_all add: s middlewares_of_def slice_elems_def split: slice.splits)
  have 2: "\<exists>H R m handler'.
            deref (hitches st) h = Inr H \<and> deref (routers st) (router H) = Inr R \<and>
            routers st' = (routers st)[router H :=
               R\<lparr>routes := routes R @ [(m, path H p, handler')]\<rparr>]"
    using H R s by auto
  show ?thesis
    using 1 2
    by (simp add: HandleFunc_def GET_def PUT_def POST_def PATCH_def DELETE_def OPTIONS_def)
qed

theorem registration_frame_witness:
  "GET rejects_duplicates 3 ''/items'' (terminal ''h'') [Some (logging ''C'')] example_child =
     Inr (example_child\<lparr>routers := [\<lparr>HandleMethodNotAllowed = False,
        routes = [(''GET'', ''/api/items'',
          logging ''A'' (logging ''B'' (logging ''C'' (terminal ''h''))))]\<rparr>]\<rparr>) \<and>
   hitches (example_child\<lparr>routers := [\<lparr>HandleMethodNotAllowed = False,
        routes = [(''GET'', ''/api/items'',
          logging ''A'' (logging ''B'' (logging ''C'' (terminal ''h''))))]\<rparr>]\<rparr>) =
     hitches example_child \<and>
   arrays (example_child\<lparr>routers := [\<lparr>HandleMethodNotAllowed = False,
        routes = [(''GET'', ''/api/items'',
          logging ''A'' (logging ''B'' (logging ''C'' (terminal ''h''))))]\<rparr>]\<rparr>) =
     arrays example_child \<and>
   middlewares_of (example_child\<lparr>routers := [\<lparr>HandleMethodNotAllowed = False,
        routes = [(''GET'', ''/api/items'',
          logging ''A'' (logging ''B'' (logging ''C'' (terminal ''h''))))]\<rparr>]\<rparr>) 3 =
     [Some (logging ''A''), Some (logging ''B'')]"
proof -
  let ?st' = "example_child\<lparr>routers := [\<lparr>HandleMethodNotAllowed = False,
        routes = [(''GET'', ''/api/items'',
          logging ''A'' (logging ''B'' (logging ''C'' (terminal ''h''))))]\<rparr>]\<rparr>"
  have 1: "GET rejects_duplicates 3 \<in>
      {Handle rejects_duplicates 3 ''GET'', HandleFunc rejects_duplicates 3 ''GET'',
       GET rejects_duplicates 3, PUT rejects_duplicates 3, POST rejects_duplicates 3,
       PATCH rejects_duplicates 3, DELETE rejects_duplicates 3, OPTIONS rejects_duplicates 3}"
    by simp
  have 2: "GET rejects_duplicates 3 ''/items'' (terminal ''h'') [Some (logging ''C'')]
      example_child = Inr ?st'"
    by (simp add: GET_def example_child_eq eval_defs numeral_2_eq_2)
  have 3: "middlewares_of example_child 3 = [Some (logging ''A''), Some (logging ''B'')]"
    by (simp add: example_child_eq middlewares_of_def slice_elems_def)
  from registration_frame[OF 1 2] 2 3 show ?thesis by simp
qed

end
